theory Spec2Isabelle
  imports Main "HOL-Library.Sublist" "HOL-Library.AList"
begin

section \<open>Strings as the coordinator uses them\<close>

text \<open>
  JavaScript strings are modelled as lists of 8-bit characters read as the code units
  U+0000 .. U+00FF, so \<open>length\<close> is \<open>.length\<close> on that range. Text outside Latin-1 is
  outside the model.
\<close>

definition LF :: char where
  "LF = CHR 0x0A"

definition digit_char :: "nat \<Rightarrow> char" where
  "digit_char d = ''0123456789'' ! (d mod 10)"

text \<open>\<open>String(n)\<close> for a non-negative integer: decimal, no leading zero.\<close>

fun dec :: "nat \<Rightarrow> string" where
  "dec n = (if n < 10 then [digit_char n] else dec (n div 10) @ [digit_char n])"

declare dec.simps [simp del]

text \<open>\<open>String(i)\<close> for an integer.\<close>

definition String_int :: "int \<Rightarrow> string" where
  "String_int i = (if i < 0 then CHR ''-'' # dec (nat (- i)) else dec (nat i))"

text \<open>\<open>s.padStart(n, c)\<close> for a one-character pad.\<close>

definition padStart :: "nat \<Rightarrow> char \<Rightarrow> string \<Rightarrow> string" where
  "padStart n c s = replicate (n - length s) c @ s"

text \<open>
  White space as \<open>String.prototype.trim\<close> sees it on the modelled range: TAB, LF, VT, FF,
  CR, SPACE and NBSP.
\<close>

definition is_ws :: "char \<Rightarrow> bool" where
  "is_ws c = (c = CHR 0x09 \<or> c = CHR 0x0A \<or> c = CHR 0x0B \<or> c = CHR 0x0C \<or> c = CHR 0x0D
              \<or> c = CHR 0x20 \<or> c = CHR 0xA0)"

definition trim :: "string \<Rightarrow> string" where
  "trim s = rev (dropWhile is_ws (rev (dropWhile is_ws s)))"

text \<open>ASCII lower-casing, which is all that \<open>/abort/i\<close> needs.\<close>

definition lower :: "char \<Rightarrow> char" where
  "lower c =
     (case map_of (zip ''ABCDEFGHIJKLMNOPQRSTUVWXYZ'' ''abcdefghijklmnopqrstuvwxyz'') c of
        None \<Rightarrow> c
      | Some l \<Rightarrow> l)"

fun contains :: "string \<Rightarrow> string \<Rightarrow> bool" where
  "contains p [] = (p = [])"
| "contains p (c # cs) = (prefix p (c # cs) \<or> contains p cs)"

text \<open>\<open>/abort/i.test(msg)\<close>\<close>

definition matches_abort :: "string \<Rightarrow> bool" where
  "matches_abort msg = contains ''abort'' (map lower msg)"

section \<open>Messages and their sanitization\<close>

text \<open>
  The values that \<open>sanitizeMessages\<close> is handed come from \<open>JSON.parse\<close>, so an element of
  \<open>messages\<close> or of an array content may be \<open>null\<close>: that is \<open>None\<close> here, and reading a
  property of it throws a TypeError. An element that is an object is a record; a number
  or a string in the place of an object has none of the properties read and is the
  record with the empty \<open>type\<close> and no \<open>text\<close>.

  The \<open>text\<close> of a content part \<open>{type, text, ...}\<close> is \<open>TNone\<close> when it is absent or a
  falsy value that is not a string (\<open>null\<close>, \<open>0\<close>, \<open>false\<close>), \<open>TStr\<close> for a string, and
  \<open>TOther\<close> for a truthy value that is not a string (a number, \<open>true\<close>, an object, an
  array), which has no \<open>trim\<close> method. \<open>pextra\<close> stands for the other keys of a part. The
  content of a message is a string, an array, or anything else (\<open>null\<close>, a number, an
  object, absent).
\<close>

datatype error = TypeError

datatype text_val = TNone | TStr string | TOther

record part =
  ptype :: string
  ptext :: text_val
  pextra :: string

datatype content = CStr string | CArr "part option list" | COther

record message =
  role :: string
  content :: content
  mextra :: string

text \<open>
  The filter predicate \<open>p.type !== 'text' || (p.text && p.text.trim().length > 0)\<close>. It
  throws when \<open>p\<close> is \<open>null\<close> and when a text part has a truthy \<open>text\<close> without \<open>trim\<close>.
\<close>

definition keep_part :: "part option \<Rightarrow> error + bool" where
  "keep_part p =
     (case p of
        None \<Rightarrow> Inl TypeError
      | Some q \<Rightarrow>
          if ptype q \<noteq> ''text'' then Inr True
          else (case ptext q of
                  TNone \<Rightarrow> Inr False
                | TStr t \<Rightarrow> Inr (t \<noteq> [] \<and> length (trim t) > 0)
                | TOther \<Rightarrow> Inl TypeError))"

text \<open>\<open>content.filter(...)\<close>: the parts are tested in order, the first throw ends it.\<close>

fun filter_parts :: "part option list \<Rightarrow> error + part option list" where
  "filter_parts [] = Inr []"
| "filter_parts (p # ps) =
     (case keep_part p of
        Inl e \<Rightarrow> Inl e
      | Inr k \<Rightarrow>
          (case filter_parts ps of
             Inl e \<Rightarrow> Inl e
           | Inr qs \<Rightarrow> Inr (if k then p # qs else qs)))"

definition dot_part :: part where
  "dot_part = \<lparr>ptype = ''text'', ptext = TStr ''.'', pextra = []\<rparr>"

text \<open>
  The test \<open>p.type === 'text'\<close> of \<open>content.some\<close>. It runs on the filtered array, which
  holds no \<open>null\<close>: the filter has thrown on one.
\<close>

definition is_text_part :: "part option \<Rightarrow> bool" where
  "is_text_part p = (case p of None \<Rightarrow> False | Some q \<Rightarrow> ptype q = ''text'')"

definition sanitizeContent :: "content \<Rightarrow> error + content" where
  "sanitizeContent c =
     (case c of
        CStr s \<Rightarrow> Inr (if trim s = [] then CStr ''.'' else CStr s)
      | CArr ps \<Rightarrow>
          (case filter_parts ps of
             Inl e \<Rightarrow> Inl e
           | Inr qs \<Rightarrow>
               Inr (if length qs = 0 \<or> \<not> list_ex is_text_part qs
                    then CArr (qs @ [Some dot_part]) else CArr qs))
      | COther \<Rightarrow> Inr COther)"

text \<open>The callback of \<open>messages.map\<close>: \<open>m.content\<close> throws when \<open>m\<close> is \<open>null\<close>.\<close>

definition sanitizeMessage :: "message option \<Rightarrow> error + message" where
  "sanitizeMessage m =
     (case m of
        None \<Rightarrow> Inl TypeError
      | Some x \<Rightarrow>
          (case sanitizeContent (content x) of
             Inl e \<Rightarrow> Inl e
           | Inr c \<Rightarrow> Inr (x\<lparr>content := c\<rparr>)))"

fun map_messages :: "message option list \<Rightarrow> error + message list" where
  "map_messages [] = Inr []"
| "map_messages (m # ms) =
     (case sanitizeMessage m of
        Inl e \<Rightarrow> Inl e
      | Inr x \<Rightarrow>
          (case map_messages ms of
             Inl e \<Rightarrow> Inl e
           | Inr xs \<Rightarrow> Inr (x # xs)))"

text \<open>
  \<open>sanitizeMessages\<close>; the argument is \<open>None\<close> when it is not an array. The result is
  \<open>Inl TypeError\<close> when the call throws.
\<close>

definition sanitizeMessages :: "message option list option \<Rightarrow> error + message list" where
  "sanitizeMessages messages =
     (case messages of
        None \<Rightarrow> Inr []
      | Some ms \<Rightarrow> map_messages ms)"


section \<open>The key-value store (db.js)\<close>

type_synonym image = string

datatype phase = Idle | Running | Done | Error | Evicted

record delta =
  d_seq :: int
  d_text :: string
  d_images :: "image list"

record snapshot =
  s_rid :: string
  s_seq :: int
  s_phase :: phase
  s_error :: "string option"
  s_startedAt :: nat

datatype blob = Snap snapshot | Dlt delta | Prompt "message list"

text \<open>
  The operator \<open>GLOB\<close> of SQLite, by which \<open>list\<close> selects keys. In a pattern \<open>*\<close>
  matches any run of characters, \<open>?\<close> any one character, and \<open>[...]\<close> one character
  of a set: \<open>^\<close> right after the bracket negates the set, a \<open>]\<close> in the first place is a
  member, \<open>a-z\<close> is a range, and a set that is never closed matches nothing. Every other
  character matches itself; matching is case sensitive. The matcher walks the pattern;
  inside a set it carries the character \<open>x\<close> under test, whether the set is negated,
  whether \<open>x\<close> was seen, and the character a range may start from.
\<close>

datatype gmode = Plain | SetStart char | SetFirst char bool | InSet char bool bool "char option"

fun glob_at :: "gmode \<Rightarrow> string \<Rightarrow> string \<Rightarrow> bool" where
  "glob_at Plain [] s = (s = [])"
| "glob_at Plain (c # p) s =
     (if c = CHR ''*''
      then glob_at Plain p s \<or> (case s of [] \<Rightarrow> False | x # xs \<Rightarrow> glob_at Plain (c # p) xs)
      else (case s of
              [] \<Rightarrow> False
            | x # xs \<Rightarrow>
                if c = CHR ''['' then glob_at (SetStart x) p xs
                else (c = x \<or> c = CHR ''?'') \<and> glob_at Plain p xs))"
| "glob_at (SetStart x) [] s = False"
| "glob_at (SetStart x) (d # q) s =
     (if d = CHR ''^'' then glob_at (SetFirst x True) q s
      else if d = CHR '']'' then glob_at (InSet x False (x = d) None) q s
      else glob_at (InSet x False (x = d) (Some d)) q s)"
| "glob_at (SetFirst x neg) [] s = False"
| "glob_at (SetFirst x neg) (d # q) s =
     (if d = CHR '']'' then glob_at (InSet x neg (x = d) None) q s
      else glob_at (InSet x neg (x = d) (Some d)) q s)"
| "glob_at (InSet x neg seen prior) [] s = False"
| "glob_at (InSet x neg seen prior) (d # q) s =
     (if d = CHR '']'' then seen \<noteq> neg \<and> glob_at Plain q s
      else
        (case prior of
           None \<Rightarrow> glob_at (InSet x neg (seen \<or> x = d) (Some d)) q s
         | Some lo \<Rightarrow>
             (case q of
                [] \<Rightarrow> False
              | e # q' \<Rightarrow>
                  if d = CHR ''-'' \<and> e \<noteq> CHR '']''
                  then glob_at
                         (InSet x neg
                            (seen \<or> ((of_char lo :: nat) \<le> of_char x \<and> (of_char x :: nat) \<le> of_char e))
                            None) q' s
                  else glob_at (InSet x neg (seen \<or> x = d) (Some d)) q s)))"

definition glob :: "string \<Rightarrow> string \<Rightarrow> bool" where
  "glob pat s = glob_at Plain pat s"

text \<open>
  The table \<open>kv(k, v, exp)\<close> as a list of rows. \<open>INSERT OR REPLACE\<close> deletes the row of
  the key and appends the new one. A row is visible while \<open>exp > now\<close>. \<open>list(prefix)\<close>
  selects the keys with \<open>k GLOB prefix*\<close>. The order in which it returns keys is the row
  order here; the coordinator sorts what it reads.
\<close>

type_synonym kv = "(string \<times> blob \<times> nat) list"

definition TTL_MS :: nat where
  "TTL_MS = 20 * 60 * 1000"

definition kv_get :: "kv \<Rightarrow> nat \<Rightarrow> string \<Rightarrow> blob option" where
  "kv_get st now key =
     (case find (\<lambda>(k, v, exp). k = key \<and> exp > now) st of
        None \<Rightarrow> None
      | Some (k, v, exp) \<Rightarrow> Some v)"

definition kv_set :: "string \<Rightarrow> blob \<Rightarrow> nat \<Rightarrow> kv \<Rightarrow> kv" where
  "kv_set key val now st = filter (\<lambda>(k, v, exp). k \<noteq> key) st @ [(key, val, now + TTL_MS)]"

definition kv_list :: "kv \<Rightarrow> nat \<Rightarrow> string \<Rightarrow> string list" where
  "kv_list st now pre =
     map fst (filter (\<lambda>(k, v, exp). glob (pre @ ''*'') k \<and> exp > now) st)"

definition kv_prune :: "nat \<Rightarrow> kv \<Rightarrow> kv" where
  "kv_prune now st = filter (\<lambda>(k, v, exp). \<not> exp < now) st"

definition run_key :: "string \<Rightarrow> string" where
  "run_key rid = ''run:'' @ rid"

definition prompt_key :: "string \<Rightarrow> string" where
  "prompt_key rid = ''prompt:'' @ rid"

definition delta_prefix :: "string \<Rightarrow> string" where
  "delta_prefix rid = ''delta:'' @ rid @ '':''"

definition delta_key :: "string \<Rightarrow> int \<Rightarrow> string" where
  "delta_key rid n = delta_prefix rid @ padStart 10 (CHR ''0'') (String_int n)"

section \<open>The run coordinator (run.js)\<close>

definition BATCH_BYTES :: nat where
  "BATCH_BYTES = 3400"

definition MAX_RUN_MS :: nat where
  "MAX_RUN_MS = 9 * 60 * 1000"

text \<open>
  A Run object. \<open>sockets\<close> is the socket Set in insertion order; \<open>flushTimer\<close> and
  \<open>timeoutTimer\<close> say whether the one-shot is armed; \<open>controller\<close> is \<open>None\<close> for
  \<open>null\<close> and \<open>Some aborted\<close> for an AbortController.
\<close>

type_synonym sock = nat

record run =
  rid :: string
  seq :: int
  phase :: phase
  error :: "string option"
  sockets :: "sock list"
  pending :: string
  pendingImages :: "image list"
  flushTimer :: bool
  controller :: "bool option"
  startedAt :: nat
  timeoutTimer :: bool

datatype frame = DeltaF int string "image list" | DoneF | ErrF string

text \<open>
  The request body handed to the adapter: its \<open>model\<close> and its \<open>messages\<close> (\<open>None\<close> when
  not an array); the other fields travel with it untouched and are not modelled.
\<close>

record body =
  bmodel :: string
  bmessages :: "message option list option"

text \<open>
  What \<open>beginStream\<close> calls: one of the four adapters, or, when the provider string names
  a member that the lookup object inherits from \<open>Object.prototype\<close>, that member, with
  which no upstream request is made.
\<close>

datatype adapter = OpenRouter | OpenAI | Claude | Google | ObjectMember string

text \<open>
  A notification carries the rid and the elapsed milliseconds (the source prints them
  with \<open>toFixed(1)\<close>) and, for a failure, the error text.
\<close>

datatype notice = Ended string int | Failed string int string

datatype effect =
    Send sock frame
  | Spawn adapter string body
  | Notify notice

definition saveSnapshot :: "nat \<Rightarrow> run \<Rightarrow> kv \<Rightarrow> kv" where
  "saveSnapshot now r st =
     kv_set (run_key (rid r))
       (Snap \<lparr>s_rid = rid r, s_seq = seq r, s_phase = phase r, s_error = error r,
              s_startedAt = startedAt r\<rparr>) now st"

definition bcast :: "run \<Rightarrow> frame \<Rightarrow> effect list" where
  "bcast r f = map (\<lambda>ws. Send ws f) (sockets r)"

definition flush :: "nat \<Rightarrow> bool \<Rightarrow> run \<times> kv \<Rightarrow> run \<times> kv \<times> effect list" where
  "flush now force rk =
     (let r0 = (fst rk)\<lparr>flushTimer := False\<rparr>;
          st0 = snd rk;
          (r1, st1, es) =
            (if pending r0 \<noteq> [] \<or> length (pendingImages r0) > 0
             then
               (let n = seq r0 + 1;
                    item = \<lparr>d_seq = n, d_text = pending r0, d_images = pendingImages r0\<rparr>
                in (r0\<lparr>seq := n, pending := [], pendingImages := []\<rparr>,
                    kv_set (delta_key (rid r0) n) (Dlt item) now st0,
                    bcast r0 (DeltaF n (d_text item) (d_images item))))
             else (r0, st0, []))
      in (r1, if force then saveSnapshot now r1 st1 else st1, es))"

definition queueDelta ::
  "nat \<Rightarrow> string \<Rightarrow> image list \<Rightarrow> run \<times> kv \<Rightarrow> run \<times> kv \<times> effect list" where
  "queueDelta now text images rk =
     (if text = [] \<and> images = [] then (fst rk, snd rk, [])
      else
        (let r1 = (fst rk)\<lparr>pending := pending (fst rk) @ text,
                           pendingImages := pendingImages (fst rk) @ images\<rparr>
         in if length (pending r1) \<ge> BATCH_BYTES \<or> length (pendingImages r1) > 0
            then flush now False (r1, snd rk)
            else if \<not> flushTimer r1 then (r1\<lparr>flushTimer := True\<rparr>, snd rk, [])
            else (r1, snd rk, [])))"

text \<open>
  \<open>getDeltas\<close>: list the keys, read each, drop what is gone, sort by \<open>seq\<close> (the sort is
  stable). Only \<open>flush\<close> writes under \<open>delta:\<close>, so every row read is a delta.
\<close>

definition as_delta :: "blob option \<Rightarrow> delta option" where
  "as_delta b = (case b of Some (Dlt d) \<Rightarrow> Some d | _ \<Rightarrow> None)"

definition getDeltas :: "nat \<Rightarrow> string \<Rightarrow> kv \<Rightarrow> delta list" where
  "getDeltas now r_id st =
     sort_key d_seq
       (List.map_filter (\<lambda>k. as_delta (kv_get st now k)) (kv_list st now (delta_prefix r_id)))"

definition terminated_text :: string where
  "terminated_text = ''The run was terminated unexpectedly.''"

text \<open>\<open>r.error || 'The run was terminated unexpectedly.'\<close>\<close>

definition error_or_default :: "string option \<Rightarrow> string" where
  "error_or_default e = (case e of None \<Rightarrow> terminated_text
                          | Some s \<Rightarrow> if s = [] then terminated_text else s)"

definition terminal_frames :: "run \<Rightarrow> frame list" where
  "terminal_frames r =
     (if phase r = Done then [DoneF]
      else if phase r = Error \<or> phase r = Evicted then [ErrF (error_or_default (error r))]
      else [])"

definition replay :: "nat \<Rightarrow> sock \<Rightarrow> int \<Rightarrow> run \<times> kv \<Rightarrow> effect list" where
  "replay now ws after rk =
     map (\<lambda>it. Send ws (DeltaF (d_seq it) (d_text it) (d_images it)))
       (filter (\<lambda>it. d_seq it > after) (getDeltas now (rid (fst rk)) (snd rk)))
     @ map (Send ws) (terminal_frames (fst rk))"

definition abort :: "bool option \<Rightarrow> bool option" where
  "abort c = (case c of None \<Rightarrow> None | Some a \<Rightarrow> Some True)"

definition stop :: "nat \<Rightarrow> run \<times> kv \<Rightarrow> run \<times> kv \<times> effect list" where
  "stop now rk =
     (if phase (fst rk) \<noteq> Running then (fst rk, snd rk, [])
      else
        (let r1 = (fst rk)\<lparr>timeoutTimer := False\<rparr>;
             (r2, st2, es2) = flush now True (r1, snd rk);
             r3 = r2\<lparr>phase := Done, error := None, controller := abort (controller r2)\<rparr>
         in (r3, saveSnapshot now r3 st2,
             es2 @ bcast r3 DoneF
                 @ [Notify (Ended (rid r3) (int now - int (startedAt r3)))])))"

definition failed_prefix :: string where
  "failed_prefix = [LF, LF] @ ''Run failed: ''"

definition fail :: "nat \<Rightarrow> string \<Rightarrow> run \<times> kv \<Rightarrow> run \<times> kv \<times> effect list" where
  "fail now message rk =
     (if phase (fst rk) \<noteq> Running then (fst rk, snd rk, [])
      else
        (let r1 = (fst rk)\<lparr>timeoutTimer := False\<rparr>;
             err = (if message = [] then ''stream_failed'' else message);
             (r2, st2, es2) = queueDelta now (failed_prefix @ err) [] (r1, snd rk);
             (r3, st3, es3) = flush now True (r2, st2);
             r4 = r3\<lparr>phase := Error, error := Some err, controller := abort (controller r3)\<rparr>
         in (r4, saveSnapshot now r4 st3,
             es2 @ es3 @ bcast r4 (ErrF err)
                 @ [Notify (Failed (rid r4) (int now - int (startedAt r4)) err)])))"

text \<open>
  What the coordinator does when the adapter's promise settles (\<open>beginStream\<close>). A thrown
  value is read through \<open>e?.name\<close> and \<open>e?.message\<close>; an absent or empty field is the
  empty string.
\<close>

record js_error =
  e_name :: string
  e_message :: string

text \<open>
  A cancellation as the specification names it: the name is AbortError or the message
  matches \<open>/abort/i\<close>. The code tests \<open>String(e?.message || 'stream_failed')\<close> instead.
\<close>

definition is_cancellation :: "js_error \<Rightarrow> bool" where
  "is_cancellation e = (e_name e = ''AbortError'' \<or> matches_abort (e_message e))"

definition adapter_returns :: "nat \<Rightarrow> run \<times> kv \<Rightarrow> run \<times> kv \<times> effect list" where
  "adapter_returns now rk =
     (if phase (fst rk) = Running then stop now rk else (fst rk, snd rk, []))"

definition adapter_throws :: "nat \<Rightarrow> js_error \<Rightarrow> run \<times> kv \<Rightarrow> run \<times> kv \<times> effect list" where
  "adapter_throws now e rk =
     (let (r1, st1, es1) =
            (if phase (fst rk) = Running
             then (let msg = (if e_message e = [] then ''stream_failed'' else e_message e)
                   in if \<not> (e_name e = ''AbortError'' \<or> matches_abort msg)
                      then fail now msg rk else (fst rk, snd rk, []))
             else (fst rk, snd rk, []));
          (r2, st2, es2) =
            (if phase r1 = Running then stop now (r1, st1) else (r1, st1, []))
      in (r2, st2, es1 @ es2))"

definition timeout_text :: string where
  "timeout_text =
     ''Run timed out after '' @ String_int (int (MAX_RUN_MS div 60000)) @ '' minutes.''"


definition timeout_fires :: "nat \<Rightarrow> run \<times> kv \<Rightarrow> run \<times> kv \<times> effect list" where
  "timeout_fires now rk =
     (if timeoutTimer (fst rk) \<and> phase (fst rk) = Running then fail now timeout_text rk
      else (fst rk, snd rk, []))"

section \<open>The process: the runs Map, the store and the clock\<close>

text \<open>
  \<open>runs\<close> is the Map from uid to Run object, in insertion order. A Run object is mutated
  in place, which is an update of its entry here. \<open>clock\<close> is \<open>Date.now()\<close>.
\<close>

record world =
  runs :: "(string \<times> run) list"
  kvs :: kv
  clock :: nat

text \<open>
  The object \<open>meta\<close> builds from what it read under \<open>run:\<close>, with the defaults of its
  \<open>??\<close> for a field the value does not have.
\<close>

definition restored :: "string \<Rightarrow> blob \<Rightarrow> run" where
  "restored r_id snap =
     \<lparr>rid = r_id,
      seq = (case snap of Snap s \<Rightarrow> s_seq s | Dlt d \<Rightarrow> d_seq d | Prompt ms \<Rightarrow> - 1),
      phase = (case snap of Snap s \<Rightarrow> s_phase s | Dlt d \<Rightarrow> Done | Prompt ms \<Rightarrow> Done),
      error = (case snap of Snap s \<Rightarrow> s_error s | Dlt d \<Rightarrow> None | Prompt ms \<Rightarrow> None),
      sockets = [], pending = [], pendingImages = [], flushTimer = False, controller = None,
      startedAt = (case snap of Snap s \<Rightarrow> s_startedAt s | Dlt d \<Rightarrow> 0 | Prompt ms \<Rightarrow> 0),
      timeoutTimer = False\<rparr>"

definition meta :: "string \<Rightarrow> world \<Rightarrow> run option \<times> world" where
  "meta r_id w =
     (case map_of (runs w) r_id of
        Some r \<Rightarrow> (Some r, w)
      | None \<Rightarrow>
          (case kv_get (kvs w) (clock w) (run_key r_id) of
             None \<Rightarrow> (None, w)
           | Some snap \<Rightarrow>
               (Some (restored r_id snap),
                w\<lparr>runs := AList.update r_id (restored r_id snap) (runs w)\<rparr>)))"

definition fresh_run :: "string \<Rightarrow> run" where
  "fresh_run r_id =
     \<lparr>rid = r_id, seq = - 1, phase = Idle, error = None, sockets = [], pending = [],
      pendingImages = [], flushTimer = False, controller = None, startedAt = 0,
      timeoutTimer = False\<rparr>"

definition ensure :: "string \<Rightarrow> world \<Rightarrow> run \<times> world" where
  "ensure r_id w =
     (case meta r_id w of
        (Some r, w1) \<Rightarrow> (r, w1)
      | (None, w1) \<Rightarrow>
          (fresh_run r_id, w1\<lparr>runs := AList.update r_id (fresh_run r_id) (runs w1)\<rparr>))"

text \<open>A coordinator function applied to the Run object held under a uid.\<close>

definition at_run ::
  "string \<Rightarrow> (nat \<Rightarrow> run \<times> kv \<Rightarrow> run \<times> kv \<times> effect list) \<Rightarrow> world \<Rightarrow> world \<times> effect list" where
  "at_run uid f w =
     (case map_of (runs w) uid of
        None \<Rightarrow> (w, [])
      | Some r \<Rightarrow>
          (let (r1, st1, es) = f (clock w) (r, kvs w)
           in (w\<lparr>runs := AList.update uid r1 (runs w), kvs := st1\<rparr>, es)))"

definition addSocket :: "string \<Rightarrow> sock \<Rightarrow> world \<Rightarrow> world" where
  "addSocket uid ws w =
     (let (r, w1) = ensure uid w
      in w1\<lparr>runs := AList.update uid
                 (r\<lparr>sockets := (if ws \<in> set (sockets r) then sockets r else sockets r @ [ws])\<rparr>)
                 (runs w1)\<rparr>)"

definition removeSocket :: "string \<Rightarrow> sock \<Rightarrow> world \<Rightarrow> world" where
  "removeSocket uid ws w =
     (case map_of (runs w) uid of
        None \<Rightarrow> w
      | Some r \<Rightarrow>
          w\<lparr>runs := AList.update uid (r\<lparr>sockets := removeAll ws (sockets r)\<rparr>) (runs w)\<rparr>)"

text \<open>
  The fields of a socket message that \<open>handleMessage\<close> reads. \<open>mrid\<close> is \<open>None\<close> when the
  message has no \<open>rid\<close>; an absent \<open>type\<close>, \<open>apiKey\<close>, \<open>model\<close> or \<open>provider\<close> is the empty
  string; \<open>messages\<close> is \<open>None\<close> when it is not an array. Rids are strings. A message
  is what \<open>JSON.parse\<close> returned and has fields; the JSON text \<open>null\<close>, on which the
  read of \<open>msg.type\<close> throws, is no message here.
\<close>

datatype after_val = Absent | JNull | JBool bool | JInt int | JNonFinite

text \<open>
  \<open>Number.isFinite(+after) ? +after : -1\<close> on the values of \<open>after\<close> the model has: the
  field absent, \<open>null\<close>, a boolean, an integer, and \<open>JNonFinite\<close> for every value that
  unary plus takes to NaN or an infinity (a non-numeric string, an object, \<open>1e999\<close>).
  Unary plus takes \<open>null\<close> and \<open>false\<close> to 0 and \<open>true\<close> to 1.
\<close>

definition cursor_of :: "after_val \<Rightarrow> int" where
  "cursor_of a =
     (case a of Absent \<Rightarrow> - 1 | JNull \<Rightarrow> 0 | JBool b \<Rightarrow> (if b then 1 else 0)
      | JInt n \<Rightarrow> n | JNonFinite \<Rightarrow> - 1)"

record client_msg =
  mtype :: string
  mrid :: "string option"
  apiKey :: string
  or_body :: "body option"
  model :: string
  messages :: "message option list option"
  after :: after_val
  provider :: string

text \<open>\<open>or_body || (model && Array.isArray(messages) ? {model, messages, ...} : null)\<close>\<close>

definition body_of :: "client_msg \<Rightarrow> body option" where
  "body_of msg =
     (case or_body msg of
        Some b \<Rightarrow> Some b
      | None \<Rightarrow>
          (if model msg \<noteq> [] \<and> messages msg \<noteq> None
           then Some \<lparr>bmodel = model msg, bmessages = messages msg\<rparr> else None))"

text \<open>
  The guard \<open>!msgRid || !apiKey || !body || !Array.isArray(body.messages) ||
  body.messages.length === 0\<close>: \<open>None\<close> when it rejects, else the rid, the body and its
  messages.
\<close>

definition begin_fields ::
  "client_msg \<Rightarrow> (string \<times> body \<times> message option list) option" where
  "begin_fields msg =
     (case mrid msg of
        None \<Rightarrow> None
      | Some msgRid \<Rightarrow>
          (case body_of msg of
             None \<Rightarrow> None
           | Some b \<Rightarrow>
               (case bmessages b of
                  None \<Rightarrow> None
                | Some ms \<Rightarrow>
                    if msgRid = [] \<or> apiKey msg = [] \<or> length ms = 0 then None
                    else Some (msgRid, b, ms))))"

text \<open>
  The names that an object literal inherits from \<open>Object.prototype\<close>; each of them is a
  truthy value.
\<close>

definition object_members :: "string list" where
  "object_members =
     [''constructor'', ''toString'', ''toLocaleString'', ''valueOf'', ''hasOwnProperty'',
      ''isPrototypeOf'', ''propertyIsEnumerable'', ''__proto__'', ''__defineGetter__'',
      ''__defineSetter__'', ''__lookupGetter__'', ''__lookupSetter__'']"

text \<open>
  \<open>{openai, google, claude}[provider || 'openrouter'] || streamOpenRouter\<close>: the lookup
  finds the three own keys and the inherited members, and falls back on every other
  string.
\<close>

definition adapter_of :: "string \<Rightarrow> adapter" where
  "adapter_of p =
     (if p = ''openai'' then OpenAI else if p = ''google'' then Google
      else if p = ''claude'' then Claude
      else if p \<in> set object_members then ObjectMember p else OpenRouter)"

text \<open>
  \<open>handleMessage\<close> returns the process state and either the effects of the call or the
  error it threw. It throws when \<open>sanitizeMessages\<close> does, after the field check and
  before anything is sent; what \<open>ensure\<close> did by then stays done.
\<close>

definition handleMessage ::
  "string \<Rightarrow> sock \<Rightarrow> client_msg \<Rightarrow> world \<Rightarrow> world \<times> (error + effect list)" where
  "handleMessage uid ws msg w0 =
     (let (r, w) = ensure uid w0
      in if mtype msg = ''stop''
         then (if mrid msg = Some (rid r)
               then (let (w1, es) = at_run uid stop w in (w1, Inr es))
               else (w, Inr []))
         else if mtype msg \<noteq> ''begin'' then (w, Inr [Send ws (ErrF ''bad_type'')])
         else
           (case begin_fields msg of
              None \<Rightarrow> (w, Inr [Send ws (ErrF ''missing_fields'')])
            | Some (msgRid, b, ms) \<Rightarrow>
                (case sanitizeMessages (Some ms) of
                   Inl e \<Rightarrow> (w, Inl e)
                 | Inr ms1 \<Rightarrow>
                     (let b1 = b\<lparr>bmessages := Some (map Some ms1)\<rparr>
                      in if phase r = Running \<and> msgRid \<noteq> rid r
                         then (w, Inr [Send ws (ErrF ''busy'')])
                         else if msgRid = rid r \<and> phase r \<noteq> Idle
                         then (w, Inr (replay (clock w) ws (cursor_of (after msg)) (r, kvs w)))
                         else
                           (let r1 = r\<lparr>rid := msgRid, seq := - 1, phase := Running,
                                        error := None, pending := [], pendingImages := [],
                                        controller := Some False, startedAt := clock w,
                                        timeoutTimer := True\<rparr>;
                                st1 = kv_set (prompt_key (rid r1)) (Prompt ms1) (clock w) (kvs w);
                                st2 = saveSnapshot (clock w) r1 st1
                            in (w\<lparr>runs := AList.update uid r1 (runs w), kvs := st2\<rparr>,
                                Inr [Spawn (adapter_of (provider msg)) (apiKey msg) b1]))))))"

record poll =
  p_rid :: "string option"
  p_seq :: int
  p_phase :: phase
  p_done :: bool
  p_error :: "string option"
  p_text :: string
  p_images :: "image list"

definition handlePoll :: "string \<Rightarrow> world \<Rightarrow> poll \<times> world" where
  "handlePoll uid w0 =
     (case meta uid w0 of
        (None, w) \<Rightarrow>
          (\<lparr>p_rid = None, p_seq = - 1, p_phase = Idle, p_done = False, p_error = None,
            p_text = [], p_images = []\<rparr>, w)
      | (Some r, w) \<Rightarrow>
          (let deltas = getDeltas (clock w) (rid r) (kvs w);
               isTerminal = (phase r = Done \<or> phase r = Error \<or> phase r = Evicted);
               isError = (phase r = Error \<or> phase r = Evicted)
           in (\<lparr>p_rid = Some (rid r), p_seq = seq r, p_phase = phase r, p_done = isTerminal,
                 p_error = (if isError then Some (error_or_default (error r)) else None),
                 p_text = concat (map d_text deltas) @ pending r,
                 p_images = concat (map d_images deltas) @ pendingImages r\<rparr>, w)))"

text \<open>The periodic sweep over the entries of \<open>runs\<close>.\<close>

fun sweep :: "(string \<times> run) list \<Rightarrow> world \<Rightarrow> world \<times> effect list" where
  "sweep [] w = (w, [])"
| "sweep ((uid, r) # rest) w =
     (let (w1, es1) =
            (if phase r = Running
             then (if startedAt r \<noteq> 0 \<and> int (clock w) - int (startedAt r) > int MAX_RUN_MS
                   then at_run uid (\<lambda>now. fail now timeout_text) w else (w, []))
             else if length (sockets r) = 0
             then (w\<lparr>runs := AList.delete uid (runs w)\<rparr>, [])
             else (w, []));
          (w2, es2) = sweep rest w1
      in (w2, es1 @ es2))"

definition cleanup :: "world \<Rightarrow> world \<times> effect list" where
  "cleanup w = sweep (runs w) w"

definition tick :: "nat \<Rightarrow> world \<Rightarrow> world" where
  "tick ms w = w\<lparr>clock := clock w + ms\<rparr>"

section \<open>Reading server-sent events (providers.js)\<close>

text \<open>
  The upstream body arrives as a list of read chunks. \<open>splitLF\<close> is \<open>s.split('\n')\<close>. A
  call of \<open>onDelta(text, images)\<close> is a pair. \<open>JSON.parse\<close> and the selection of the
  fields of a frame are a parameter \<open>decode\<close>, \<open>None\<close> when the parse throws or the frame
  has no delta. The run is taken to stay \<open>running\<close> while the stream is read.
\<close>

fun splitLF :: "string \<Rightarrow> string list" where
  "splitLF [] = [[]]"
| "splitLF (c # cs) =
     (if c = LF then [] # splitLF cs
      else (case splitLF cs of [] \<Rightarrow> [[c]] | l # ls \<Rightarrow> (c # l) # ls))"

type_synonym call = "string \<times> image list"

text \<open>The fields of \<open>choices[0].delta\<close> that the OpenRouter adapter reads.\<close>

record or_delta =
  o_reasoning :: string
  o_content :: string
  o_images :: "image list option"

text \<open>
  One decoded OpenRouter frame, with the flags \<open>hasReasoning\<close> and \<open>hasContent\<close>;
  \<open>exclude\<close> is \<open>body.reasoning?.exclude === true\<close>.
\<close>

definition or_frame :: "bool \<Rightarrow> bool \<times> bool \<Rightarrow> or_delta \<Rightarrow> (bool \<times> bool) \<times> call list" where
  "or_frame exclude fl d =
     (let emitR = (o_reasoning d \<noteq> [] \<and> \<not> exclude);
          hr = (fst fl \<or> emitR);
          c1 = (if emitR then [(o_reasoning d, [])] else []);
          c2 = (if o_content d \<noteq> []
                then (if hr \<and> \<not> snd fl then [([LF], [])] else []) @ [(o_content d, [])]
                else []);
          hc = (snd fl \<or> o_content d \<noteq> []);
          c3 = (case o_images d of None \<Rightarrow> [] | Some is \<Rightarrow> [([], is)])
      in ((hr, hc), c1 @ c2 @ c3))"

text \<open>
  The \<open>for\<close> loop over complete lines; the third component says that \<open>[DONE]\<close> was read
  and the adapter returned.
\<close>

fun or_lines ::
  "(string \<Rightarrow> or_delta option) \<Rightarrow> bool \<Rightarrow> bool \<times> bool \<Rightarrow> string list
     \<Rightarrow> (bool \<times> bool) \<times> call list \<times> bool" where
  "or_lines decode exclude fl [] = (fl, [], False)"
| "or_lines decode exclude fl (line # rest) =
     (if \<not> prefix ''data: '' line then or_lines decode exclude fl rest
      else
        (let data = trim (drop 6 line)
         in if data = ''[DONE]'' then (fl, [], True)
            else
              (case decode data of
                 None \<Rightarrow> or_lines decode exclude fl rest
               | Some d \<Rightarrow>
                   (let (fl1, cs1) = or_frame exclude fl d;
                        (fl2, cs2, fin) = or_lines decode exclude fl1 rest
                    in (fl2, cs1 @ cs2, fin)))))"

text \<open>The \<open>while\<close> loop: one iteration per read, until the reader is done.\<close>

fun or_reads ::
  "(string \<Rightarrow> or_delta option) \<Rightarrow> bool \<Rightarrow> string \<Rightarrow> bool \<times> bool \<Rightarrow> string list
     \<Rightarrow> call list" where
  "or_reads decode exclude buf fl [] = []"
| "or_reads decode exclude buf fl (chunk # rest) =
     (let lines = splitLF (buf @ chunk);
          (fl1, cs, fin) = or_lines decode exclude fl (butlast lines)
      in if fin then cs else cs @ or_reads decode exclude (last lines) fl1 rest)"

definition streamOpenRouter ::
  "(string \<Rightarrow> or_delta option) \<Rightarrow> bool \<Rightarrow> string list \<Rightarrow> call list" where
  "streamOpenRouter decode exclude chunks = or_reads decode exclude [] (False, False) chunks"

text \<open>The fields of a part of \<open>candidates[0].content.parts\<close> that the Google adapter reads.\<close>

record g_part =
  g_thought :: string
  g_text :: string

fun g_parts :: "bool \<times> bool \<Rightarrow> g_part list \<Rightarrow> (bool \<times> bool) \<times> call list" where
  "g_parts fl [] = (fl, [])"
| "g_parts fl (p # ps) =
     (let hr = (fst fl \<or> g_thought p \<noteq> []);
          c1 = (if g_thought p \<noteq> [] then [(g_thought p, [])] else []);
          c2 = (if g_text p \<noteq> []
                then (if hr \<and> \<not> snd fl then [([LF], [])] else []) @ [(g_text p, [])]
                else []);
          hc = (snd fl \<or> g_text p \<noteq> []);
          (fl2, cs) = g_parts (hr, hc) ps
      in (fl2, c1 @ c2 @ cs))"

fun g_lines ::
  "(string \<Rightarrow> g_part list option) \<Rightarrow> bool \<times> bool \<Rightarrow> string list
     \<Rightarrow> (bool \<times> bool) \<times> call list" where
  "g_lines decode fl [] = (fl, [])"
| "g_lines decode fl (line # rest) =
     (if \<not> prefix ''data: '' line then g_lines decode fl rest
      else
        (case decode (drop 6 line) of
           None \<Rightarrow> g_lines decode fl rest
         | Some ps \<Rightarrow>
             (let (fl1, cs1) = g_parts fl ps;
                  (fl2, cs2) = g_lines decode fl1 rest
              in (fl2, cs1 @ cs2))))"

text \<open>\<open>buf.slice(buf.lastIndexOf('\n') + 1)\<close>\<close>

definition after_last_LF :: "string \<Rightarrow> string" where
  "after_last_LF s = rev (takeWhile (\<lambda>c. c \<noteq> LF) (rev s))"

fun g_reads ::
  "(string \<Rightarrow> g_part list option) \<Rightarrow> string \<Rightarrow> bool \<times> bool \<Rightarrow> string list \<Rightarrow> call list" where
  "g_reads decode buf fl [] = []"
| "g_reads decode buf fl (chunk # rest) =
     (let (fl1, cs) = g_lines decode fl (splitLF (buf @ chunk))
      in cs @ g_reads decode (after_last_LF (buf @ chunk)) fl1 rest)"

definition streamGoogle :: "(string \<Rightarrow> g_part list option) \<Rightarrow> string list \<Rightarrow> call list" where
  "streamGoogle decode chunks = g_reads decode [] (False, False) chunks"

section \<open>Events of a streaming Run\<close>






section \<open>Notions of the specification\<close>

text \<open>A string that is empty or holds white space only.\<close>

definition blank :: "string \<Rightarrow> bool" where
  "blank s = list_all is_ws s"

text \<open>
  An empty-text part: a part of type \<open>text\<close> whose text is absent or a blank string. A
  text part is non-empty when its text is a string that is not blank.
\<close>

definition empty_text_part :: "part \<Rightarrow> bool" where
  "empty_text_part p =
     (ptype p = ''text''
      \<and> (case ptext p of TNone \<Rightarrow> True | TStr t \<Rightarrow> blank t | TOther \<Rightarrow> False))"

definition text_part :: "part option \<Rightarrow> bool" where
  "text_part p =
     (case p of
        None \<Rightarrow> False
      | Some q \<Rightarrow> ptype q = ''text''
                  \<and> (case ptext q of TNone \<Rightarrow> False | TStr t \<Rightarrow> \<not> blank t | TOther \<Rightarrow> False))"

text \<open>A message with at least one non-empty text: a non-blank string, or a text part.\<close>

definition has_text :: "message \<Rightarrow> bool" where
  "has_text m =
     (case content m of
        CStr s \<Rightarrow> \<not> blank s
      | CArr ps \<Rightarrow> list_ex text_part ps
      | COther \<Rightarrow> False)"

text \<open>
  The messages that \<open>sanitizeMessages\<close> can read: every message is an object, every
  element of an array content is an object, and the \<open>text\<close> of a part of type \<open>text\<close> is
  a string or a falsy value.
\<close>

definition readable_part :: "part option \<Rightarrow> bool" where
  "readable_part p =
     (case p of None \<Rightarrow> False | Some q \<Rightarrow> \<not> (ptype q = ''text'' \<and> ptext q = TOther))"

definition readable_message :: "message option \<Rightarrow> bool" where
  "readable_message m =
     (case m of
        None \<Rightarrow> False
      | Some x \<Rightarrow> (case content x of CArr ps \<Rightarrow> list_all readable_part ps | _ \<Rightarrow> True))"

text \<open>
  The normal form of a content in the words of the specification: a blank string becomes
  \<open>"."\<close>; an array loses its empty-text parts and gains \<open>{type:"text", text:"."}\<close> when
  no text part remains.
\<close>

definition sanitized_content :: "content \<Rightarrow> content" where
  "sanitized_content c =
     (case c of
        CStr s \<Rightarrow> CStr (if blank s then ''.'' else s)
      | CArr ps \<Rightarrow>
          CArr (filter (\<lambda>p. case p of None \<Rightarrow> True | Some q \<Rightarrow> \<not> empty_text_part q) ps
                @ (if list_ex text_part ps then [] else [Some dot_part]))
      | COther \<Rightarrow> COther)"

text \<open>The effects by which a failure shows: an \<open>err\<close> frame, a failure notification.\<close>

definition failure_effect :: "effect \<Rightarrow> bool" where
  "failure_effect ef =
     (case ef of Send ws (ErrF m) \<Rightarrow> True | Notify (Failed r d m) \<Rightarrow> True | _ \<Rightarrow> False)"

text \<open>
  What a failure with error text \<open>err\<close> leaves behind. The Run afterwards: one more
  \<open>seq\<close>, phase \<open>error\<close> with that text, empty buffers, both timers cleared, and its
  controller, when it has one, aborted. The text of the error is the message, or
  \<open>stream_failed\<close> for an empty one. The delta that carries the trailer holds what was
  pending, then the trailer.
\<close>

definition failure_text :: "string \<Rightarrow> string" where
  "failure_text message = (if message = [] then ''stream_failed'' else message)"

definition failed_run :: "string \<Rightarrow> run \<Rightarrow> run" where
  "failed_run err r =
     r\<lparr>seq := seq r + 1, phase := Error, error := Some err, pending := [],
       pendingImages := [], flushTimer := False,
       controller := map_option (\<lambda>aborted. True) (controller r),
       timeoutTimer := False\<rparr>"

definition trailer_delta :: "string \<Rightarrow> run \<Rightarrow> delta" where
  "trailer_delta err r =
     \<lparr>d_seq = seq r + 1, d_text = pending r @ [LF, LF] @ ''Run failed: '' @ err,
      d_images = pendingImages r\<rparr>"

text \<open>The terminal phases.\<close>

definition terminal :: "phase \<Rightarrow> bool" where
  "terminal p = (p = Done \<or> p = Error \<or> p = Evicted)"

text \<open>
  A rid without the characters that \<open>GLOB\<close> reads as a pattern.
\<close>

definition glob_free :: "string \<Rightarrow> bool" where
  "glob_free s = list_all (\<lambda>c. c \<noteq> CHR ''*'' \<and> c \<noteq> CHR ''?'' \<and> c \<noteq> CHR ''['') s"

text \<open>
  The persisted deltas of a rid: the deltas held by the visible rows whose key is the key
  of that rid and of the delta's own \<open>seq\<close>, in row order.
\<close>

definition own_delta :: "nat \<Rightarrow> string \<Rightarrow> string \<times> blob \<times> nat \<Rightarrow> delta option" where
  "own_delta now r_id row =
     (case row of
        (k, Dlt d, exp) \<Rightarrow> if k = delta_key r_id (d_seq d) \<and> exp > now then Some d else None
      | _ \<Rightarrow> None)"

definition persisted_deltas :: "nat \<Rightarrow> string \<Rightarrow> kv \<Rightarrow> delta list" where
  "persisted_deltas now r_id st = List.map_filter (own_delta now r_id) st"





text \<open>The visible rows under the delta prefix of a rid, in row order.\<close>

definition delta_rows :: "nat \<Rightarrow> string \<Rightarrow> kv \<Rightarrow> (string \<times> blob \<times> nat) list" where
  "delta_rows now r_id st = filter (\<lambda>(k, v, exp). prefix (delta_prefix r_id) k \<and> exp > now) st"

text \<open>
  The delta log of a Run started at \<open>t0\<close> that has received the text \<open>acc\<close>: the
  visible rows under its prefix are the deltas \<open>ds\<close>, numbered \<open>0 .. seq\<close>, each
  under its own key and alive until \<open>t0 + TTL_MS\<close> at least, and their texts followed by
  the pending text are \<open>acc\<close>.
\<close>

definition log_inv :: "nat \<Rightarrow> string \<Rightarrow> delta list \<Rightarrow> nat \<Rightarrow> run \<times> kv \<Rightarrow> bool" where
  "log_inv t0 acc ds now rk =
     (t0 \<le> now \<and> now < t0 + TTL_MS \<and> - 1 \<le> seq (fst rk) \<and> glob_free (rid (fst rk))
      \<and> map (\<lambda>(k, v, e). (k, v)) (delta_rows now (rid (fst rk)) (snd rk))
          = map (\<lambda>d. (delta_key (rid (fst rk)) (d_seq d), Dlt d)) ds
      \<and> list_all (\<lambda>(k, v, e). t0 + TTL_MS \<le> e) (delta_rows now (rid (fst rk)) (snd rk))
      \<and> map d_seq ds = [0..seq (fst rk)]
      \<and> concat (map d_text ds) @ pending (fst rk) = acc)"


section \<open>Example values\<close>

definition ex_messages :: "message list" where
  "ex_messages = [\<lparr>role = ''user'', content = CStr ''hi'', mextra = []\<rparr>]"

definition ex_body :: body where
  "ex_body = \<lparr>bmodel = ''m'', bmessages = Some (map Some ex_messages)\<rparr>"

definition ex_begin :: "string \<Rightarrow> client_msg" where
  "ex_begin r = \<lparr>mtype = ''begin'', mrid = Some r, apiKey = ''K'', or_body = None,
     model = ''m'', messages = Some (map Some ex_messages), after = Absent, provider = []\<rparr>"

definition ex_stop :: "string \<Rightarrow> client_msg" where
  "ex_stop r = \<lparr>mtype = ''stop'', mrid = Some r, apiKey = [], or_body = None,
     model = [], messages = None, after = Absent, provider = []\<rparr>"

definition ex_resume :: "after_val \<Rightarrow> client_msg" where
  "ex_resume a = (ex_begin ''r1'')\<lparr>after := a\<rparr>"

text \<open>
  A process in which uid \<open>u1\<close> runs rid \<open>r1\<close>: one delta is persisted, two characters
  wait in the buffer, socket 7 is attached.
\<close>

definition r_running :: run where
  "r_running = \<lparr>rid = ''r1'', seq = 0, phase = Running, error = None, sockets = [7],
     pending = ''lo'', pendingImages = [], flushTimer = True, controller = Some False,
     startedAt = 1000, timeoutTimer = True\<rparr>"

definition kv_running :: kv where
  "kv_running =
     [(''prompt:r1'', Prompt ex_messages, 1201000),
      (''run:r1'', Snap \<lparr>s_rid = ''r1'', s_seq = - 1, s_phase = Running, s_error = None,
                         s_startedAt = 1000\<rparr>, 1201000),
      (''delta:r1:0000000000'', Dlt \<lparr>d_seq = 0, d_text = ''hel'', d_images = []\<rparr>, 1201500)]"

definition w_running :: world where
  "w_running = \<lparr>runs = [(''u1'', r_running)], kvs = kv_running, clock = 2000\<rparr>"

text \<open>The same Run with two sockets attached.\<close>

definition r_shared :: run where
  "r_shared = r_running\<lparr>sockets := [7, 8]\<rparr>"

definition w_shared :: world where
  "w_shared = \<lparr>runs = [(''u1'', r_shared)], kvs = kv_running, clock = 2000\<rparr>"

text \<open>A finished Run of \<open>u1\<close>: two deltas of \<open>r1\<close> are persisted, no socket is attached.\<close>

definition r_done :: run where
  "r_done = \<lparr>rid = ''r1'', seq = 1, phase = Done, error = None, sockets = [],
     pending = [], pendingImages = [], flushTimer = False, controller = Some True,
     startedAt = 1000, timeoutTimer = False\<rparr>"

definition kv_done :: kv where
  "kv_done =
     [(''prompt:r1'', Prompt ex_messages, 1201000),
      (''delta:r1:0000000001'', Dlt \<lparr>d_seq = 1, d_text = ''lo'', d_images = []\<rparr>, 1202500),
      (''delta:r1:0000000000'', Dlt \<lparr>d_seq = 0, d_text = ''hel'', d_images = []\<rparr>, 1201500),
      (''run:r1'', Snap \<lparr>s_rid = ''r1'', s_seq = 1, s_phase = Done, s_error = None,
                         s_startedAt = 1000\<rparr>, 1203000)]"

definition w_done :: world where
  "w_done = \<lparr>runs = [(''u1'', r_done)], kvs = kv_done, clock = 5000\<rparr>"

text \<open>Messages to sanitize, and thrown errors.\<close>

definition ex_blank_messages :: "message list" where
  "ex_blank_messages =
     [\<lparr>role = ''user'', content = CStr ''  '', mextra = ''name''\<rparr>,
      \<lparr>role = ''user'',
       content = CArr [Some \<lparr>ptype = ''text'', ptext = TStr '' '', pextra = []\<rparr>,
                       Some \<lparr>ptype = ''image_url'', ptext = TNone, pextra = ''u''\<rparr>],
       mextra = []\<rparr>]"

text \<open>
  Messages that cannot be read: \<open>[null]\<close>, a message whose content is \<open>[null]\<close>, and a
  message with the part \<open>{type:"text", text:5}\<close>.
\<close>

definition ex_null_message :: "message option list" where
  "ex_null_message = [None]"

definition ex_null_part :: "message option list" where
  "ex_null_part = [Some \<lparr>role = ''user'', content = CArr [None], mextra = []\<rparr>]"

definition ex_number_text :: "message option list" where
  "ex_number_text =
     [Some \<lparr>role = ''user'',
            content = CArr [Some \<lparr>ptype = ''text'', ptext = TOther, pextra = []\<rparr>],
            mextra = []\<rparr>]"

definition ex_aborted :: js_error where
  "ex_aborted = \<lparr>e_name = ''Error'', e_message = ''The operation was Aborted.''\<rparr>"

definition ex_boom :: js_error where
  "ex_boom = \<lparr>e_name = ''Error'', e_message = ''boom''\<rparr>"

definition ex_silent :: js_error where
  "ex_silent = \<lparr>e_name = ''Error'', e_message = []\<rparr>"

text \<open>
  Decoders for the examples: the payload \<open>{hi}\<close> stands for a frame that carries the
  text \<open>hi\<close>; nothing else decodes.
\<close>

definition ex_g_decode :: "string \<Rightarrow> g_part list option" where
  "ex_g_decode s = (if s = ''{hi}'' then Some [\<lparr>g_thought = [], g_text = ''hi''\<rparr>] else None)"

definition ex_or_decode :: "string \<Rightarrow> or_delta option" where
  "ex_or_decode s =
     (if s = ''{hi}'' then Some \<lparr>o_reasoning = [], o_content = ''hi'', o_images = None\<rparr>
      else None)"

text \<open>
  The literal scenario of the specification, with an eviction: \<open>u1\<close> attaches socket 7
  and begins \<open>r1\<close>; the adapter emits \<open>hello\<close> and returns; the socket closes; a minute
  later the sweep runs. Then \<open>u1\<close> attaches socket 8 and sends the same \<open>begin\<close>.
\<close>

definition w_empty :: world where
  "w_empty = \<lparr>runs = [], kvs = [], clock = 1000\<rparr>"


definition w_begun :: world where
  "w_begun = fst (handleMessage ''u1'' 7 (ex_begin ''r1'') (addSocket ''u1'' 7 w_empty))"

definition w_streamed :: world where
  "w_streamed = fst (at_run ''u1'' (\<lambda>now. queueDelta now ''hello'' []) (tick 100 w_begun))"

definition w_finished :: world where
  "w_finished = fst (at_run ''u1'' adapter_returns (tick 100 w_streamed))"

definition w_evicted :: world where
  "w_evicted = fst (cleanup (tick 60000 (removeSocket ''u1'' 7 w_finished)))"

definition idle_poll :: poll where
  "idle_poll = \<lparr>p_rid = None, p_seq = - 1, p_phase = Idle, p_done = False, p_error = None,
     p_text = [], p_images = []\<rparr>"

definition w_reconnected :: world where
  "w_reconnected = addSocket ''u1'' 8 w_evicted"

definition w_rebegun :: world where
  "w_rebegun = fst (handleMessage ''u1'' 8 (ex_begin ''r1'') w_reconnected)"

definition w_restarted :: world where
  "w_restarted =
     fst (at_run ''u1'' adapter_returns
       (fst (at_run ''u1'' (\<lambda>now. queueDelta now ''again'' []) w_rebegun)))"






text \<open>A store in which a finished Run was persisted under a rid equal to its uid.\<close>

definition kv_same_id :: kv where
  "kv_same_id =
     [(''delta:u1:0000000000'', Dlt \<lparr>d_seq = 0, d_text = ''hello'', d_images = []\<rparr>, 1201200),
      (''run:u1'', Snap \<lparr>s_rid = ''u1'', s_seq = 0, s_phase = Done, s_error = None,
                         s_startedAt = 1000\<rparr>, 1201200)]"

definition w_same_id :: world where
  "w_same_id = \<lparr>runs = [], kvs = kv_same_id, clock = 61200\<rparr>"

section \<open>The Run that a handler works on\<close>

lemma ensure_existing: "map_of (runs w) uid = Some r \<Longrightarrow> ensure uid w = (r, w)"
  by (simp add: ensure_def meta_def)

lemma ensure_lookup: "ensure uid w = (r, w1) \<Longrightarrow> map_of (runs w1) uid = Some r"
  by (auto simp: ensure_def meta_def update_conv' split: option.splits prod.splits)

lemma ensure_kvs: "ensure uid w = (r, w1) \<Longrightarrow> kvs w1 = kvs w"
  by (auto simp: ensure_def meta_def split: option.splits prod.splits)

lemma ensure_clock: "ensure uid w = (r, w1) \<Longrightarrow> clock w1 = clock w"
  by (auto simp: ensure_def meta_def split: option.splits prod.splits)

lemma ensure_w_running: "ensure ''u1'' w_running = (r_running, w_running)"
  by (simp add: ensure_existing w_running_def)

lemma begin_fields_ex:
  "r \<noteq> [] \<Longrightarrow> begin_fields (ex_begin r) = Some (r, ex_body, map Some ex_messages)"
  by (simp add: begin_fields_def ex_begin_def body_of_def ex_messages_def ex_body_def)

lemma sanitize_ex_messages: "sanitizeMessages (Some (map Some ex_messages)) = Inr ex_messages"
  by (simp add: sanitizeMessages_def sanitizeMessage_def sanitizeContent_def ex_messages_def
      trim_def is_ws_def)

section \<open>Sanitized messages\<close>

lemma trim_empty_iff: "(trim s = []) = blank s"
proof
  assume "trim s = []"
  then have all: "\<forall>x \<in> set (dropWhile is_ws s). is_ws x"
    by (simp add: trim_def dropWhile_eq_Nil_conv)
  have "dropWhile is_ws s = []"
  proof (rule ccontr)
    assume ne: "dropWhile is_ws s \<noteq> []"
    then have "\<not> is_ws (hd (dropWhile is_ws s))" by (rule hd_dropWhile)
    moreover have "hd (dropWhile is_ws s) \<in> set (dropWhile is_ws s)" using ne by simp
    ultimately show False using all by blast
  qed
  then show "blank s" by (simp add: blank_def dropWhile_eq_Nil_conv list_all_iff)
next
  assume "blank s"
  then have "dropWhile is_ws s = []"
    by (simp add: blank_def dropWhile_eq_Nil_conv list_all_iff)
  then show "trim s = []" by (simp add: trim_def del: dropWhile_eq_Nil_conv)
qed

lemma keep_part_readable:
  assumes r: "readable_part p"
  shows "keep_part p = Inr (case p of None \<Rightarrow> True | Some q \<Rightarrow> \<not> empty_text_part q)"
proof (cases p)
  case None with r show ?thesis by (simp add: readable_part_def)
next
  case (Some q)
  have b: "blank []" by (simp add: blank_def)
  have t: "(t \<noteq> [] \<and> trim t \<noteq> []) = (\<not> blank t)" for t
    using trim_empty_iff [of t] b by auto
  from r Some show ?thesis
    by (cases "ptext q") (auto simp: keep_part_def empty_text_part_def readable_part_def t)
qed

lemma keep_part_throws: "\<not> readable_part p \<Longrightarrow> keep_part p = Inl TypeError"
  by (cases p) (auto simp: keep_part_def readable_part_def)

lemma filter_parts_readable:
  "list_all readable_part ps \<Longrightarrow>
   filter_parts ps
     = Inr (filter (\<lambda>p. case p of None \<Rightarrow> True | Some q \<Rightarrow> \<not> empty_text_part q) ps)"
  by (induction ps) (simp_all add: keep_part_readable)

lemma filter_parts_throws: "\<not> list_all readable_part ps \<Longrightarrow> filter_parts ps = Inl TypeError"
proof (induction ps)
  case Nil then show ?case by simp
next
  case (Cons p ps)
  show ?case
  proof (cases "readable_part p")
    case True
    with Cons show ?thesis by (simp add: keep_part_readable)
  next
    case False
    then show ?thesis by (simp add: keep_part_throws)
  qed
qed

lemma not_empty_dot: "\<not> empty_text_part dot_part"
  by (simp add: empty_text_part_def dot_part_def blank_def is_ws_def)

lemma text_part_dot: "text_part (Some dot_part)"
  by (simp add: text_part_def dot_part_def blank_def is_ws_def)

lemma text_part_kept:
  assumes r: "readable_part p"
  shows "(is_text_part p \<and> (case p of None \<Rightarrow> True | Some q \<Rightarrow> \<not> empty_text_part q))
         = text_part p"
proof (cases p)
  case None then show ?thesis by (simp add: is_text_part_def text_part_def)
next
  case (Some q)
  with r show ?thesis
    by (cases "ptext q")
       (auto simp: is_text_part_def text_part_def empty_text_part_def readable_part_def)
qed

lemma sanitizeContent_spec:
  assumes "case c of CArr ps \<Rightarrow> list_all readable_part ps | _ \<Rightarrow> True"
  shows "sanitizeContent c = Inr (sanitized_content c)"
proof (cases c)
  case (CStr s) then show ?thesis
    by (simp add: sanitizeContent_def sanitized_content_def trim_empty_iff)
next
  case (CArr ps)
  let ?keep = "\<lambda>p. case p of None \<Rightarrow> True | Some q \<Rightarrow> \<not> empty_text_part q"
  from assms CArr have r: "list_all readable_part ps" by simp
  have "list_ex is_text_part (filter ?keep ps) = list_ex (\<lambda>p. is_text_part p \<and> ?keep p) ps"
    by (auto simp: list_ex_iff)
  also have "\<dots> = list_ex text_part ps"
    using r text_part_kept by (induction ps) auto
  finally have e: "list_ex is_text_part (filter ?keep ps) = list_ex text_part ps" .
  have n: "filter ?keep ps = [] \<Longrightarrow> \<not> list_ex text_part ps"
    using e by simp
  show ?thesis using CArr n
    by (auto simp: sanitizeContent_def sanitized_content_def filter_parts_readable [OF r] e)
next
  case COther then show ?thesis by (simp add: sanitizeContent_def sanitized_content_def)
qed

lemma has_text_sanitized:
  "c \<noteq> COther \<Longrightarrow> has_text (m\<lparr>content := sanitized_content c\<rparr>)"
proof (cases c)
  case (CStr s)
  have "\<not> blank ''.''" by (simp add: blank_def is_ws_def)
  with CStr show ?thesis by (simp add: has_text_def sanitized_content_def)
next
  case (CArr ps)
  have "list_ex text_part ps \<Longrightarrow>
        list_ex text_part
          (filter (\<lambda>p. case p of None \<Rightarrow> True | Some q \<Rightarrow> \<not> empty_text_part q) ps)"
    by (auto simp: list_ex_iff text_part_def empty_text_part_def
             split: option.splits text_val.splits)
  with CArr show ?thesis
    by (auto simp: has_text_def sanitized_content_def text_part_dot)
qed simp

lemma sanitizeMessage_readable:
  "readable_message (Some m) \<Longrightarrow>
   sanitizeMessage (Some m) = Inr (m\<lparr>content := sanitized_content (content m)\<rparr>)"
  by (simp add: sanitizeMessage_def readable_message_def sanitizeContent_spec)

lemma map_messages_readable:
  "list_all readable_message (map Some xs) \<Longrightarrow>
   map_messages (map Some xs) = Inr (map (\<lambda>m. m\<lparr>content := sanitized_content (content m)\<rparr>) xs)"
  by (induction xs) (simp_all add: sanitizeMessage_readable)

lemma readable_objects: "list_all readable_message ms \<Longrightarrow> \<exists>xs. ms = map Some xs"
proof (induction ms)
  case Nil then show ?case by simp
next
  case (Cons m ms)
  then obtain xs where "ms = map Some xs" by auto
  moreover from Cons.prems obtain x where "m = Some x"
    by (cases m) (auto simp: readable_message_def)
  ultimately have "m # ms = map Some (x # xs)" by simp
  then show ?case by (rule exI)
qed

lemma sanitize_readable:
  "list_all readable_message ms \<Longrightarrow> \<exists>ys. sanitizeMessages (Some ms) = Inr ys"
  using readable_objects [of ms] map_messages_readable
  by (auto simp: sanitizeMessages_def)

lemma sanitizeMessage_throws:
  "\<not> readable_message m \<Longrightarrow> sanitizeMessage m = Inl TypeError"
  by (cases m)
     (auto simp: sanitizeMessage_def readable_message_def sanitizeContent_def
        filter_parts_throws split: content.splits)

lemma sanitize_throws:
  "\<not> list_all readable_message ms \<Longrightarrow> sanitizeMessages (Some ms) = Inl TypeError"
proof (induction ms)
  case Nil then show ?case by simp
next
  case (Cons m ms)
  show ?case
  proof (cases "readable_message m")
    case True
    then obtain x where m: "m = Some x" by (cases m) (auto simp: readable_message_def)
    from True Cons have "map_messages ms = Inl TypeError" by (simp add: sanitizeMessages_def)
    with True m show ?thesis
      by (simp add: sanitizeMessages_def sanitizeMessage_readable)
  next
    case False
    then show ?thesis by (simp add: sanitizeMessages_def sanitizeMessage_throws)
  qed
qed

text \<open>
  C8, as amended. Let every message of the array be an object, every element of an array
  content an object, and the text of every part of type \<open>text\<close> a string or a falsy
  value. Then \<open>sanitizeMessages\<close> returns, and it returns one message per input message,
  with the role and the other keys of the input. Its content is the normal form of the
  input's content: a blank string has become \<open>"."\<close>, an array has lost its empty-text
  parts and has gained \<open>{type:"text", text:"."}\<close> when no text part remained, and any
  other content is passed on as it is. Every returned message whose input content was a
  string or an array holds at least one non-empty text.
\<close>

theorem sanitized_messages_have_text:
  assumes "list_all readable_message (map Some xs)"
  shows "\<exists>ys. sanitizeMessages (Some (map Some xs)) = Inr ys \<and> length ys = length xs \<and>
   (\<forall>i < length xs.
      role (ys ! i) = role (xs ! i)
      \<and> mextra (ys ! i) = mextra (xs ! i)
      \<and> content (ys ! i) = sanitized_content (content (xs ! i))
      \<and> (content (xs ! i) \<noteq> COther \<longrightarrow> has_text (ys ! i)))"
  using assms
  by (simp add: sanitizeMessages_def map_messages_readable has_text_sanitized)

theorem sanitized_messages_have_text_witness:
  "list_all readable_message (map Some ex_blank_messages)
   \<and> sanitizeMessages (Some (map Some ex_blank_messages)) =
     Inr [\<lparr>role = ''user'', content = CStr ''.'', mextra = ''name''\<rparr>,
          \<lparr>role = ''user'',
           content = CArr [Some \<lparr>ptype = ''image_url'', ptext = TNone, pextra = ''u''\<rparr>,
                           Some dot_part],
           mextra = []\<rparr>]
   \<and> (1::nat) < length ex_blank_messages
   \<and> content (ex_blank_messages ! 1) \<noteq> COther
   \<and> has_text \<lparr>role = ''user'',
               content = CArr [Some \<lparr>ptype = ''image_url'', ptext = TNone, pextra = ''u''\<rparr>,
                               Some dot_part],
               mextra = []\<rparr>"
proof -
  let ?ys = "[\<lparr>role = ''user'', content = CStr ''.'', mextra = ''name''\<rparr>,
          \<lparr>role = ''user'',
           content = CArr [Some \<lparr>ptype = ''image_url'', ptext = TNone, pextra = ''u''\<rparr>,
                           Some dot_part],
           mextra = []\<rparr>]"
  have r: "list_all readable_message (map Some ex_blank_messages)"
    by (simp add: ex_blank_messages_def readable_message_def readable_part_def)
  have e: "sanitizeMessages (Some (map Some ex_blank_messages)) = Inr ?ys"
    by (simp add: sanitizeMessages_def sanitizeMessage_def ex_blank_messages_def
        sanitizeContent_def trim_def is_ws_def keep_part_def is_text_part_def)
  have l: "(1::nat) < length ex_blank_messages" by (simp add: ex_blank_messages_def)
  have c: "content (ex_blank_messages ! 1) \<noteq> COther" by (simp add: ex_blank_messages_def)
  from sanitized_messages_have_text [OF r] e
  have "\<forall>i < length ex_blank_messages.
          content (ex_blank_messages ! i) \<noteq> COther \<longrightarrow> has_text (?ys ! i)" by auto
  with l c have "has_text (?ys ! 1)" by blast
  then have "has_text \<lparr>role = ''user'',
               content = CArr [Some \<lparr>ptype = ''image_url'', ptext = TNone, pextra = ''u''\<rparr>,
                               Some dot_part],
               mextra = []\<rparr>" by simp
  with r e l c show ?thesis by blast
qed

text \<open>
  C8 as stated fails for a content that is neither a string nor an array (\<open>null\<close>, say):
  the message is returned as it is, with no text part.
\<close>

theorem sanitize_other_content_counterexample:
  "sanitizeMessages (Some [Some \<lparr>role = ''user'', content = COther, mextra = []\<rparr>])
     = Inr [\<lparr>role = ''user'', content = COther, mextra = []\<rparr>]
   \<and> \<not> has_text \<lparr>role = ''user'', content = COther, mextra = []\<rparr>"
  by (simp add: sanitizeMessages_def sanitizeMessage_def sanitizeContent_def has_text_def)

text \<open>
  Outside the messages of C8 \<open>sanitizeMessages\<close> throws, and only there: it returns
  exactly when every message and every part is an object and no text part carries a
  truthy text that is not a string. It throws for \<open>[null]\<close>, for the content \<open>[null]\<close>
  and for the part \<open>{type:"text", text:5}\<close>.
\<close>

lemma sanitizeMessages_throws_iff:
  "(sanitizeMessages (Some ms) = Inl TypeError) = (\<not> list_all readable_message ms)"
  using sanitize_readable [of ms] sanitize_throws [of ms] by auto

lemma sanitizeMessages_throws_examples:
  "sanitizeMessages (Some ex_null_message) = Inl TypeError
   \<and> sanitizeMessages (Some ex_null_part) = Inl TypeError
   \<and> sanitizeMessages (Some ex_number_text) = Inl TypeError"
  by (simp add: sanitizeMessages_def sanitizeMessage_def sanitizeContent_def keep_part_def
      ex_null_message_def ex_null_part_def ex_number_text_def)

section \<open>The prefix scan\<close>

lemma glob_star: "glob_at Plain ''*'' k"
  by (induction k) simp_all

lemma glob_literal:
  "glob_free pre \<Longrightarrow> glob_at Plain (pre @ ''*'') k = prefix pre k"
proof (induction pre arbitrary: k)
  case Nil
  then show ?case using glob_star by simp
next
  case (Cons c pre)
  then have c: "c \<noteq> CHR ''*''" "c \<noteq> CHR ''?''" "c \<noteq> CHR ''[''" and f: "glob_free pre"
    by (simp_all add: glob_free_def)
  show ?case
  proof (cases k)
    case Nil
    with c show ?thesis by simp
  next
    case (Cons x xs)
    with c Cons.IH [OF f, of xs] show ?thesis by auto
  qed
qed

text \<open>
  For a prefix without pattern characters \<open>list\<close> is a prefix scan. It is not one
  otherwise: under the rid \<open>*\<close> it lists the keys of every rid, and under the rid
  \<open>[a]\<close> it lists the keys of the rid \<open>a\<close> and none of its own.
\<close>

lemma kv_list_literal:
  "glob_free pre \<Longrightarrow>
   kv_list st now pre = map fst (filter (\<lambda>(k, v, exp). prefix pre k \<and> exp > now) st)"
  by (simp add: kv_list_def glob_def glob_literal)

lemma glob_free_delta_prefix: "glob_free (delta_prefix r) = glob_free r"
  by (simp add: glob_free_def delta_prefix_def)

lemma kv_list_rows:
  "glob_free r \<Longrightarrow> kv_list st now (delta_prefix r) = map fst (delta_rows now r st)"
  by (simp add: kv_list_literal glob_free_delta_prefix delta_rows_def)

lemma glob_pattern_examples:
  "glob (delta_prefix ''*'' @ ''*'') ''delta:r1:0000000000''
   \<and> glob (delta_prefix ''[a]'' @ ''*'') ''delta:a:0000000000''
   \<and> \<not> glob (delta_prefix ''[a]'' @ ''*'') ''delta:[a]:0000000000''
   \<and> glob (delta_prefix ''r?'' @ ''*'') ''delta:r1:0000000000''
   \<and> glob (delta_prefix ''[^a-q]1'' @ ''*'') ''delta:r1:0000000000''
   \<and> \<not> glob (delta_prefix ''[a-q]1'' @ ''*'') ''delta:r1:0000000000''
   \<and> \<not> glob (delta_prefix ''[r'' @ ''*'') ''delta:r:0000000000''"
  by (simp add: glob_def delta_prefix_def)

section \<open>Messages that leave the Run alone\<close>

text \<open>
  C10. A \<open>stop\<close> message whose rid is not the rid of the current Run (the Run \<open>r\<close> that
  \<open>ensure\<close> hands to the handler) produces no effect at all: no frame is sent to any
  socket, nothing is spawned or notified. The Run under the uid afterwards is \<open>r\<close> itself,
  so its phase, seq, buffers and timers are as they were; the store and the clock are
  untouched, and when the Run was already in the map the whole process state is unchanged.
\<close>

theorem stop_with_other_rid_is_dropped:
  assumes "mtype msg = ''stop''" and "ensure uid w = (r, w1)" and "mrid msg \<noteq> Some (rid r)"
  shows "handleMessage uid ws msg w = (w1, Inr []) \<and> map_of (runs w1) uid = Some r
         \<and> kvs w1 = kvs w \<and> clock w1 = clock w
         \<and> (map_of (runs w) uid \<noteq> None \<longrightarrow> w1 = w)"
proof -
  have "handleMessage uid ws msg w = (w1, Inr [])"
    using assms by (simp add: handleMessage_def)
  moreover have "map_of (runs w) uid \<noteq> None \<longrightarrow> w1 = w"
    using assms(2) by (auto simp: ensure_existing)
  ultimately show ?thesis
    using assms(2) by (simp add: ensure_lookup ensure_kvs ensure_clock)
qed

theorem stop_with_other_rid_is_dropped_witness:
  "mtype (ex_stop ''r2'') = ''stop'' \<and> ensure ''u1'' w_running = (r_running, w_running)
   \<and> mrid (ex_stop ''r2'') \<noteq> Some (rid r_running)
   \<and> handleMessage ''u1'' 7 (ex_stop ''r2'') w_running = (w_running, Inr [])
   \<and> map_of (runs w_running) ''u1'' = Some r_running"
proof -
  have h1: "mtype (ex_stop ''r2'') = ''stop''" by (simp add: ex_stop_def)
  have h3: "mrid (ex_stop ''r2'') \<noteq> Some (rid r_running)"
    by (simp add: ex_stop_def r_running_def)
  from stop_with_other_rid_is_dropped [OF h1 ensure_w_running h3, of 7]
  show ?thesis using h1 h3 ensure_w_running by simp
qed

lemma begin_fields_rid: "begin_fields msg = Some (msgRid, b, ms) \<Longrightarrow> mrid msg = Some msgRid"
  by (auto simp: begin_fields_def split: option.splits if_splits)

text \<open>
  C4, as amended. Let a \<open>begin\<close> message carry a rid that differs from the rid of the
  current Run (or no rid) while that Run is \<open>running\<close>. Handling it leaves the process
  state as \<open>ensure\<close> left it: the Run under the uid afterwards is the same Run, so its
  phase, seq, pending text and pending images are unchanged, and so is the store. When
  the message passes the field check (rid, apiKey and a non-empty messages array are
  present) and its messages can be read, it is answered with
  \<open>{type:"err", message:"busy"}\<close> to the sender and nothing else.
\<close>

theorem busy_leaves_run_untouched:
  assumes "mtype msg = ''begin''" and "ensure uid w = (r, w1)"
    and "phase r = Running" and "mrid msg \<noteq> Some (rid r)"
    and "handleMessage uid ws msg w = (w', res)"
  shows "w' = w1 \<and> map_of (runs w') uid = Some r \<and> kvs w' = kvs w
         \<and> (map_of (runs w) uid \<noteq> None \<longrightarrow> w' = w)
         \<and> (\<forall>msgRid b ms. begin_fields msg = Some (msgRid, b, ms)
               \<and> list_all readable_message ms \<longrightarrow> res = Inr [Send ws (ErrF ''busy'')])"
proof -
  have state: "w' = w1"
  proof (cases "begin_fields msg")
    case None
    with assms show ?thesis by (simp add: handleMessage_def)
  next
    case (Some t)
    obtain msgRid b ms where t: "t = (msgRid, b, ms)" by (cases t)
    with Some assms(4) have "msgRid \<noteq> rid r" by (auto dest: begin_fields_rid)
    with Some t assms show ?thesis
      by (cases "sanitizeMessages (Some ms)") (auto simp: handleMessage_def)
  qed
  have reply: "res = Inr [Send ws (ErrF ''busy'')]"
    if f: "begin_fields msg = Some (msgRid, b, ms)" and rd: "list_all readable_message ms"
    for msgRid b ms
  proof -
    from f assms(4) have n: "msgRid \<noteq> rid r" by (auto dest: begin_fields_rid)
    from sanitize_readable [OF rd] obtain ys where "sanitizeMessages (Some ms) = Inr ys" ..
    with f n assms show ?thesis by (simp add: handleMessage_def)
  qed
  have same: "map_of (runs w) uid \<noteq> None \<longrightarrow> w1 = w"
    using assms(2) by (auto simp: ensure_existing)
  from state reply same show ?thesis
    using assms(2) by (simp add: ensure_lookup ensure_kvs)
qed

theorem busy_leaves_run_untouched_witness:
  "mtype (ex_begin ''r2'') = ''begin''
   \<and> ensure ''u1'' w_running = (r_running, w_running) \<and> phase r_running = Running
   \<and> mrid (ex_begin ''r2'') \<noteq> Some (rid r_running)
   \<and> begin_fields (ex_begin ''r2'') = Some (''r2'', ex_body, map Some ex_messages)
   \<and> list_all readable_message (map Some ex_messages)
   \<and> handleMessage ''u1'' 7 (ex_begin ''r2'') w_running
       = (w_running, Inr [Send 7 (ErrF ''busy'')])
   \<and> map_of (runs w_running) ''u1'' = Some r_running"
proof -
  have h1: "mtype (ex_begin ''r2'') = ''begin''" by (simp add: ex_begin_def)
  have h3: "phase r_running = Running" by (simp add: r_running_def)
  have h4: "mrid (ex_begin ''r2'') \<noteq> Some (rid r_running)"
    by (simp add: r_running_def ex_begin_def)
  have h5: "handleMessage ''u1'' 7 (ex_begin ''r2'') w_running
      = (fst (handleMessage ''u1'' 7 (ex_begin ''r2'') w_running),
         snd (handleMessage ''u1'' 7 (ex_begin ''r2'') w_running))" by simp
  have f: "begin_fields (ex_begin ''r2'') = Some (''r2'', ex_body, map Some ex_messages)"
    by (simp add: begin_fields_ex)
  have rd: "list_all readable_message (map Some ex_messages)"
    by (simp add: ex_messages_def readable_message_def)
  note t = busy_leaves_run_untouched [OF h1 ensure_w_running h3 h4 h5]
  from t have a: "fst (handleMessage ''u1'' 7 (ex_begin ''r2'') w_running) = w_running"
    by simp
  from t have "begin_fields (ex_begin ''r2'') = Some (''r2'', ex_body, map Some ex_messages)
        \<and> list_all readable_message (map Some ex_messages)
      \<longrightarrow> snd (handleMessage ''u1'' 7 (ex_begin ''r2'') w_running)
            = Inr [Send 7 (ErrF ''busy'')]"
    by (elim conjE allE)
  with f rd have b: "snd (handleMessage ''u1'' 7 (ex_begin ''r2'') w_running)
            = Inr [Send 7 (ErrF ''busy'')]" by simp
  from t a have c: "map_of (runs w_running) ''u1'' = Some r_running" by simp
  from a b c have "handleMessage ''u1'' 7 (ex_begin ''r2'') w_running
       = (w_running, Inr [Send 7 (ErrF ''busy'')])
     \<and> map_of (runs w_running) ''u1'' = Some r_running"
    by (simp add: prod_eq_iff)
  with h1 h3 h4 f rd ensure_w_running show ?thesis by blast
qed

text \<open>
  C4 as stated fails: while \<open>u1\<close> runs \<open>r1\<close>, a \<open>begin\<close> with rid \<open>r2\<close> and no apiKey is
  answered \<open>missing_fields\<close>, not \<open>busy\<close>, because the field check comes first.
\<close>

theorem busy_needs_complete_begin_counterexample:
  "mtype ((ex_begin ''r2'')\<lparr>apiKey := []\<rparr>) = ''begin''
   \<and> mrid ((ex_begin ''r2'')\<lparr>apiKey := []\<rparr>) = Some ''r2''
   \<and> map_of (runs w_running) ''u1'' = Some r_running
   \<and> rid r_running = ''r1'' \<and> phase r_running = Running
   \<and> handleMessage ''u1'' 7 ((ex_begin ''r2'')\<lparr>apiKey := []\<rparr>) w_running
       = (w_running, Inr [Send 7 (ErrF ''missing_fields'')])"
proof -
  have "handleMessage ''u1'' 7 ((ex_begin ''r2'')\<lparr>apiKey := []\<rparr>) w_running
       = (w_running, Inr [Send 7 (ErrF ''missing_fields'')])"
    by (simp add: handleMessage_def ensure_w_running begin_fields_def ex_begin_def body_of_def)
  then show ?thesis
    by (simp add: ex_begin_def r_running_def w_running_def)
qed

text \<open>
  A \<open>begin\<close> whose messages cannot be read ends in the TypeError of \<open>sanitizeMessages\<close>
  before the busy test: no frame is sent. The Run is left alone all the same.
\<close>

lemma unreadable_begin_throws:
  "handleMessage ''u1'' 7 ((ex_begin ''r2'')\<lparr>messages := Some ex_null_message\<rparr>) w_running
     = (w_running, Inl TypeError)"
  by (simp add: handleMessage_def ensure_w_running begin_fields_def ex_begin_def body_of_def
      sanitizeMessages_def sanitizeMessage_def ex_null_message_def r_running_def)

section \<open>Cancellation is not failure\<close>

lemma default_is_no_abort: "\<not> matches_abort ''stream_failed''"
  by (simp add: matches_abort_def lower_def)

lemma empty_is_no_abort: "\<not> matches_abort []"
  by (simp add: matches_abort_def)

lemma flush_phase: "phase (fst (flush now force rk)) = phase (fst rk)"
  by (simp add: flush_def Let_def split_def)


lemma flush_effects:
  "snd (snd (flush now force rk)) =
     (if pending (fst rk) \<noteq> [] \<or> pendingImages (fst rk) \<noteq> []
      then bcast (fst rk) (DeltaF (seq (fst rk) + 1) (pending (fst rk)) (pendingImages (fst rk)))
      else [])"
  by (simp add: flush_def Let_def split_def bcast_def)

lemma stop_result:
  assumes "phase (fst rk) = Running"
  shows "phase (fst (stop now rk)) = Done \<and> error (fst (stop now rk)) = None
     \<and> list_all (\<lambda>ef. \<not> failure_effect ef) (snd (snd (stop now rk)))"
proof -
  have "list_all (\<lambda>ef. \<not> failure_effect ef) (bcast r f)" if "\<not> failure_effect (Send 0 f)" for r f
    using that by (simp add: bcast_def list_all_iff failure_effect_def split: frame.splits)
  then show ?thesis
    using assms
    by (simp add: stop_def Let_def split_def flush_effects failure_effect_def)
qed

text \<open>
  C6. When the adapter throws an error whose name is AbortError or whose message matches
  \<open>/abort/i\<close>, the coordinator does exactly what it does when the adapter returns:
  \<open>fail\<close> is not run. A Run that is still \<open>running\<close> is stopped and ends in phase
  \<open>done\<close> with no error; a Run that is no longer \<open>running\<close> is left as it is; and no
  \<open>err\<close> frame or failure notification is produced.
\<close>

theorem cancellation_is_not_a_failure:
  assumes "is_cancellation e"
  shows "adapter_throws now e rk = adapter_returns now rk
     \<and> (phase (fst rk) = Running \<longrightarrow>
          adapter_throws now e rk = stop now rk
          \<and> phase (fst (adapter_throws now e rk)) = Done
          \<and> error (fst (adapter_throws now e rk)) = None)
     \<and> (phase (fst rk) \<noteq> Running \<longrightarrow> adapter_throws now e rk = (fst rk, snd rk, []))
     \<and> list_all (\<lambda>ef. \<not> failure_effect ef) (snd (snd (adapter_throws now e rk)))"
proof -
  have eq: "adapter_throws now e rk = adapter_returns now rk"
    using assms
    by (auto simp: adapter_throws_def adapter_returns_def is_cancellation_def
        default_is_no_abort empty_is_no_abort Let_def split_def)
  show ?thesis
    unfolding eq using stop_result [of rk now]
    by (auto simp: adapter_returns_def)
qed

theorem cancellation_is_not_a_failure_witness:
  "is_cancellation ex_aborted \<and> phase (fst (r_running, kv_running)) = Running
   \<and> adapter_throws 2000 ex_aborted (r_running, kv_running)
       = stop 2000 (r_running, kv_running)
   \<and> phase (fst (adapter_throws 2000 ex_aborted (r_running, kv_running))) = Done
   \<and> error (fst (adapter_throws 2000 ex_aborted (r_running, kv_running))) = None"
proof -
  have c: "is_cancellation ex_aborted"
    by (simp add: is_cancellation_def ex_aborted_def matches_abort_def lower_def)
  have p: "phase (fst (r_running, kv_running)) = Running" by (simp add: r_running_def)
  from cancellation_is_not_a_failure [OF c, of 2000 "(r_running, kv_running)"] p
  show ?thesis using c by blast
qed

section \<open>Reading and writing the store\<close>

lemma kv_get_set:
  "kv_get (kv_set k v now st) now' k' =
     (if k' = k then (if now' < now + TTL_MS then Some v else None) else kv_get st now' k')"
  by (induction st) (auto simp: kv_get_def kv_set_def)

lemma kv_list_set:
  "kv_list (kv_set k v now st) now' pre =
     filter (\<lambda>k'. k' \<noteq> k) (kv_list st now' pre)
     @ (if glob (pre @ ''*'') k \<and> now' < now + TTL_MS then [k] else [])"
  by (induction st) (auto simp: kv_list_def kv_set_def)

lemma run_key_not_delta_key: "run_key a \<noteq> delta_key b n"
  by (simp add: run_key_def delta_key_def delta_prefix_def)

lemma prompt_key_not_delta_key: "prompt_key a \<noteq> delta_key b n"
  by (simp add: prompt_key_def delta_key_def delta_prefix_def)

lemma TTL_pos: "0 < TTL_MS"
  by (simp add: TTL_MS_def)

section \<open>Failure of a Run\<close>

lemma abort_map: "abort c = map_option (\<lambda>aborted. True) c"
  by (cases c) (simp_all add: abort_def)

lemma fail_running:
  assumes "phase r = Running"
  shows "fail now message (r, st) =
     (failed_run (failure_text message) r,
      saveSnapshot now (failed_run (failure_text message) r)
        (saveSnapshot now ((failed_run (failure_text message) r)\<lparr>phase := Running, error := error r, controller := controller r\<rparr>)
           (kv_set (delta_key (rid r) (seq r + 1))
              (Dlt (trailer_delta (failure_text message) r)) now st)),
      bcast r (DeltaF (seq r + 1) (pending r @ failed_prefix @ failure_text message)
                 (pendingImages r))
      @ bcast r (ErrF (failure_text message))
      @ [Notify (Failed (rid r) (int now - int (startedAt r)) (failure_text message))])"
  using assms
  by (simp add: fail_def queueDelta_def flush_def Let_def split_def failed_prefix_def
      failed_run_def trailer_delta_def bcast_def failure_text_def saveSnapshot_def abort_map)

lemma failure_text_nonempty: "failure_text m \<noteq> []"
  by (simp add: failure_text_def)

lemma failure_text_idem: "failure_text (failure_text m) = failure_text m"
  by (simp add: failure_text_def)

lemma phase_failed_run: "phase (failed_run err r) = Error"
  by (simp add: failed_run_def)

lemma adapter_throws_fail:
  assumes "phase r = Running" and "\<not> is_cancellation e"
  shows "adapter_throws now e (r, st) = fail now (e_message e) (r, st)"
proof -
  have n: "e_name e \<noteq> ''AbortError''" "\<not> matches_abort (failure_text (e_message e))"
    using assms(2) by (auto simp: is_cancellation_def failure_text_def default_is_no_abort)
  have "adapter_throws now e (r, st) = fail now (failure_text (e_message e)) (r, st)"
    using assms(1) n
    by (simp add: adapter_throws_def Let_def fail_running phase_failed_run
        flip: failure_text_def)
  then show ?thesis
    using assms(1) by (simp add: fail_running failure_text_idem)
qed

lemma timeout_fires_fail:
  assumes "phase r = Running" and "timeoutTimer r"
  shows "timeout_fires now (r, st) = fail now timeout_text (r, st)"
  using assms by (simp add: timeout_fires_def)

lemma poll_of_run:
  assumes "map_of (runs w) uid = Some r"
  shows "handlePoll uid w =
     (\<lparr>p_rid = Some (rid r), p_seq = seq r, p_phase = phase r,
       p_done = (phase r = Done \<or> phase r = Error \<or> phase r = Evicted),
       p_error = (if phase r = Error \<or> phase r = Evicted
                  then Some (error_or_default (error r)) else None),
       p_text = concat (map d_text (getDeltas (clock w) (rid r) (kvs w))) @ pending r,
       p_images = concat (map d_images (getDeltas (clock w) (rid r) (kvs w)))
                  @ pendingImages r\<rparr>, w)"
  using assms by (simp add: handlePoll_def meta_def Let_def)

text \<open>
  C5, as amended. Let a Run be \<open>running\<close> and let the adapter throw an error that is not
  a cancellation, or let the timeout timer fire. Let \<open>err\<close> be the message of the error,
  or \<open>stream_failed\<close> when that message is absent or empty, or the time-out text. Then the
  coordinator persists one more delta, numbered \<open>seq + 1\<close>, whose text is the pending
  text followed by the trailer \<open>"\n\nRun failed: " + err\<close>; the Run ends with phase
  \<open>error\<close>, \<open>error = err\<close>, empty buffers and cleared timers, and its controller is
  aborted; the Snapshot in the store says so; each socket of the Run is sent that delta,
  and then each socket is sent \<open>{type:"err", message:err}\<close>; and as long as this Run is
  the one held in memory under the uid, a poll of the uid reports phase \<open>error\<close>,
  \<open>done:true\<close> and \<open>err\<close>.
\<close>

theorem failure_is_recorded_and_broadcast:
  assumes "phase r = Running" and "map_of (runs w) uid = Some r"
    and "trigger = (\<lambda>now. adapter_throws now e) \<and> \<not> is_cancellation e
           \<and> message = e_message e
         \<or> trigger = timeout_fires \<and> timeoutTimer r \<and> message = timeout_text"
    and "at_run uid trigger w = (w', es)"
    and "err = failure_text message"
  shows "\<exists>r'. map_of (runs w') uid = Some r' \<and> r' = failed_run err r
     \<and> phase r' = Error \<and> error r' = Some err \<and> seq r' = seq r + 1
     \<and> \<not> flushTimer r' \<and> \<not> timeoutTimer r' \<and> sockets r' = sockets r
     \<and> (\<forall>aborted. controller r = Some aborted \<longrightarrow> controller r' = Some True)
     \<and> kv_get (kvs w') (clock w) (delta_key (rid r) (seq r + 1))
         = Some (Dlt \<lparr>d_seq = seq r + 1,
                       d_text = pending r @ [LF, LF] @ ''Run failed: '' @ err,
                       d_images = pendingImages r\<rparr>)
     \<and> kv_get (kvs w') (clock w) (run_key (rid r))
         = Some (Snap \<lparr>s_rid = rid r, s_seq = seq r + 1, s_phase = Error,
                        s_error = Some err, s_startedAt = startedAt r\<rparr>)
     \<and> es = map (\<lambda>ws. Send ws (DeltaF (seq r + 1)
                                   (pending r @ [LF, LF] @ ''Run failed: '' @ err)
                                   (pendingImages r))) (sockets r)
            @ map (\<lambda>ws. Send ws (ErrF err)) (sockets r)
            @ [Notify (Failed (rid r) (int (clock w) - int (startedAt r)) err)]
     \<and> (\<forall>w''. map_of (runs w'') uid = Some r' \<longrightarrow>
            p_phase (fst (handlePoll uid w'')) = Error
            \<and> p_done (fst (handlePoll uid w''))
            \<and> p_error (fst (handlePoll uid w'')) = Some err)"
proof -
  have t: "trigger (clock w) (r, kvs w) = fail (clock w) message (r, kvs w)"
    using assms(1,3) by (auto simp: adapter_throws_fail timeout_fires_fail)
  have w': "w' = w\<lparr>runs := AList.update uid (failed_run err r) (runs w),
                  kvs := fst (snd (fail (clock w) message (r, kvs w)))\<rparr>"
    and es: "es = snd (snd (fail (clock w) message (r, kvs w)))"
    using assms(2,4,5) t by (auto simp: at_run_def fail_running [OF assms(1)])
  have run: "map_of (runs w') uid = Some (failed_run err r)"
    by (simp add: w' update_conv')
  have f: "phase (failed_run err r) = Error \<and> error (failed_run err r) = Some err
     \<and> seq (failed_run err r) = seq r + 1
     \<and> \<not> flushTimer (failed_run err r) \<and> \<not> timeoutTimer (failed_run err r)
     \<and> sockets (failed_run err r) = sockets r
     \<and> (\<forall>aborted. controller r = Some aborted \<longrightarrow> controller (failed_run err r) = Some True)"
    by (simp add: failed_run_def)
  have d: "kv_get (kvs w') (clock w) (delta_key (rid r) (seq r + 1))
         = Some (Dlt \<lparr>d_seq = seq r + 1,
                       d_text = pending r @ [LF, LF] @ ''Run failed: '' @ err,
                       d_images = pendingImages r\<rparr>)"
    by (simp add: w' fail_running [OF assms(1)] assms(5) saveSnapshot_def kv_get_set
        failed_run_def run_key_not_delta_key [symmetric] TTL_pos trailer_delta_def
        failed_prefix_def)
  have s: "kv_get (kvs w') (clock w) (run_key (rid r))
         = Some (Snap \<lparr>s_rid = rid r, s_seq = seq r + 1, s_phase = Error,
                        s_error = Some err, s_startedAt = startedAt r\<rparr>)"
    by (simp add: w' fail_running [OF assms(1)] assms(5) saveSnapshot_def kv_get_set
        failed_run_def TTL_pos)
  have e: "es = map (\<lambda>ws. Send ws (DeltaF (seq r + 1)
                                   (pending r @ [LF, LF] @ ''Run failed: '' @ err)
                                   (pendingImages r))) (sockets r)
            @ map (\<lambda>ws. Send ws (ErrF err)) (sockets r)
            @ [Notify (Failed (rid r) (int (clock w) - int (startedAt r)) err)]"
    by (simp add: es fail_running [OF assms(1)] assms(5) bcast_def failed_prefix_def)
  have eod: "error_or_default (Some err) = err"
    using failure_text_nonempty [of message] by (simp add: error_or_default_def assms(5))
  have p: "p_phase (fst (handlePoll uid w'')) = Error \<and> p_done (fst (handlePoll uid w''))
     \<and> p_error (fst (handlePoll uid w'')) = Some err"
    if "map_of (runs w'') uid = Some (failed_run err r)" for w''
    using eod by (simp add: poll_of_run [OF that] failed_run_def)
  from run f d s e p show ?thesis by blast
qed

theorem failure_is_recorded_and_broadcast_witness:
  "phase r_shared = Running \<and> map_of (runs w_shared) ''u1'' = Some r_shared
   \<and> \<not> is_cancellation ex_boom \<and> sockets r_shared = [7, 8]
   \<and> controller r_shared = Some False
   \<and> snd (at_run ''u1'' (\<lambda>now. adapter_throws now ex_boom) w_shared)
       = [Send 7 (DeltaF 1 (''lo'' @ [LF, LF] @ ''Run failed: boom'') []),
          Send 8 (DeltaF 1 (''lo'' @ [LF, LF] @ ''Run failed: boom'') []),
          Send 7 (ErrF ''boom''), Send 8 (ErrF ''boom''),
          Notify (Failed ''r1'' 1000 ''boom'')]
   \<and> map_option controller
       (map_of (runs (fst (at_run ''u1'' (\<lambda>now. adapter_throws now ex_boom) w_shared))) ''u1'')
       = Some (Some True)
   \<and> p_phase (fst (handlePoll ''u1''
         (fst (at_run ''u1'' (\<lambda>now. adapter_throws now ex_boom) w_shared)))) = Error
   \<and> p_error (fst (handlePoll ''u1''
         (fst (at_run ''u1'' (\<lambda>now. adapter_throws now ex_boom) w_shared)))) = Some ''boom''"
proof -
  let ?w = "fst (at_run ''u1'' (\<lambda>now. adapter_throws now ex_boom) w_shared)"
  have h1: "phase r_shared = Running" by (simp add: r_shared_def r_running_def)
  have h2: "map_of (runs w_shared) ''u1'' = Some r_shared" by (simp add: w_shared_def)
  have c: "\<not> is_cancellation ex_boom"
    by (simp add: is_cancellation_def ex_boom_def matches_abort_def lower_def)
  have h3: "(\<lambda>now. adapter_throws now ex_boom) = (\<lambda>now. adapter_throws now ex_boom)
           \<and> \<not> is_cancellation ex_boom \<and> e_message ex_boom = e_message ex_boom
         \<or> (\<lambda>now. adapter_throws now ex_boom) = timeout_fires \<and> timeoutTimer r_shared
           \<and> e_message ex_boom = timeout_text"
    using c by simp
  have h4: "at_run ''u1'' (\<lambda>now. adapter_throws now ex_boom) w_shared
      = (?w, snd (at_run ''u1'' (\<lambda>now. adapter_throws now ex_boom) w_shared))"
    by simp
  have h5: "''boom'' = failure_text (e_message ex_boom)"
    by (simp add: failure_text_def ex_boom_def)
  have s: "sockets r_shared = [7, 8]" and k: "controller r_shared = Some False"
    by (simp_all add: r_shared_def r_running_def)
  from failure_is_recorded_and_broadcast [OF h1 h2 h3 h4 h5]
  obtain r' where r': "map_of (runs ?w) ''u1'' = Some r'"
    and a: "\<forall>aborted. controller r_shared = Some aborted \<longrightarrow> controller r' = Some True"
    and e: "snd (at_run ''u1'' (\<lambda>now. adapter_throws now ex_boom) w_shared)
       = map (\<lambda>ws. Send ws (DeltaF (seq r_shared + 1)
                                   (pending r_shared @ [LF, LF] @ ''Run failed: '' @ ''boom'')
                                   (pendingImages r_shared))) (sockets r_shared)
            @ map (\<lambda>ws. Send ws (ErrF ''boom'')) (sockets r_shared)
            @ [Notify (Failed (rid r_shared) (int (clock w_shared) - int (startedAt r_shared))
                 ''boom'')]"
    and p: "\<forall>w''. map_of (runs w'') ''u1'' = Some r' \<longrightarrow>
            p_phase (fst (handlePoll ''u1'' w'')) = Error
            \<and> p_done (fst (handlePoll ''u1'' w''))
            \<and> p_error (fst (handlePoll ''u1'' w'')) = Some ''boom''"
    by blast
  from a k have "controller r' = Some True" by blast
  with r' have g: "map_option controller (map_of (runs ?w) ''u1'') = Some (Some True)"
    by simp
  from e have e': "snd (at_run ''u1'' (\<lambda>now. adapter_throws now ex_boom) w_shared)
       = [Send 7 (DeltaF 1 (''lo'' @ [LF, LF] @ ''Run failed: boom'') []),
          Send 8 (DeltaF 1 (''lo'' @ [LF, LF] @ ''Run failed: boom'') []),
          Send 7 (ErrF ''boom''), Send 8 (ErrF ''boom''),
          Notify (Failed ''r1'' 1000 ''boom'')]"
    by (simp add: r_shared_def r_running_def w_shared_def)
  from p r' have q: "p_phase (fst (handlePoll ''u1'' ?w)) = Error
      \<and> p_error (fst (handlePoll ''u1'' ?w)) = Some ''boom''" by blast
  from h1 h2 c s k e' g q show ?thesis by blast
qed

text \<open>
  C5 as stated fails when the thrown error has an empty message: the error that is
  recorded and broadcast is \<open>stream_failed\<close>, not the message of the error.
\<close>

theorem failure_without_message_counterexample:
  "\<not> is_cancellation ex_silent \<and> e_message ex_silent = [] \<and> phase r_running = Running
   \<and> error (fst (adapter_throws 2000 ex_silent (r_running, kv_running)))
       = Some ''stream_failed''
   \<and> snd (snd (adapter_throws 2000 ex_silent (r_running, kv_running)))
       = [Send 7 (DeltaF 1 (''lo'' @ failed_prefix @ ''stream_failed'') []),
          Send 7 (ErrF ''stream_failed''), Notify (Failed ''r1'' 1000 ''stream_failed'')]"
proof -
  have c: "\<not> is_cancellation ex_silent"
    by (simp add: is_cancellation_def ex_silent_def matches_abort_def)
  have p: "phase r_running = Running" by (simp add: r_running_def)
  have "adapter_throws 2000 ex_silent (r_running, kv_running)
      = fail 2000 (e_message ex_silent) (r_running, kv_running)"
    by (rule adapter_throws_fail [OF p c])
  then have "error (fst (adapter_throws 2000 ex_silent (r_running, kv_running)))
       = Some ''stream_failed''
   \<and> snd (snd (adapter_throws 2000 ex_silent (r_running, kv_running)))
       = [Send 7 (DeltaF 1 (''lo'' @ failed_prefix @ ''stream_failed'') []),
          Send 7 (ErrF ''stream_failed''), Notify (Failed ''r1'' 1000 ''stream_failed'')]"
    unfolding fail_running [OF p]
    by (simp add: failure_text_def ex_silent_def failed_run_def bcast_def r_running_def)
  with c p show ?thesis by (simp add: ex_silent_def)
qed

section \<open>Replay\<close>







lemma distinct_kv_set: "distinct (map fst st) \<Longrightarrow> distinct (map fst (kv_set k v now st))"
  by (induction st) (auto simp: kv_set_def)


lemma replicate_numeral: "replicate (numeral k) x = x # replicate (pred_numeral k) x"
  by (simp add: numeral_eq_Suc)

lemmas key_defs = delta_key_def delta_prefix_def padStart_def String_int_def dec.simps
  digit_char_def replicate_numeral

lemmas read_defs = persisted_deltas_def own_delta_def delta_prefix_def as_delta_def
  List.map_filter_simps

lemma delta_key_r1_0: "delta_key ''r1'' 0 = ''delta:r1:0000000000''"
  by (simp add: key_defs)


lemma glob_free_r1: "glob_free ''r1''"
  by (simp add: glob_free_def)




text \<open>
  What the amended C1 leaves open. A \<open>begin\<close> whose messages cannot be read throws
  before the replay. With \<open>after: null\<close> the cursor is 0, because unary plus takes
  \<open>null\<close> to 0. Under the rid \<open>*\<close> the scan lists the rows of every rid, so
  \<open>getDeltas\<close> returns the deltas of \<open>r1\<close>. And the rows of the rid \<open>r1:x\<close> lie
  under the prefix of \<open>r1\<close>, so \<open>getDeltas\<close> returns them for \<open>r1\<close>.
\<close>

lemma unreadable_resume_throws:
  "handleMessage ''u1'' 9 ((ex_resume Absent)\<lparr>messages := Some ex_null_message\<rparr>) w_done
     = (w_done, Inl TypeError)"
proof -
  have e: "ensure ''u1'' w_done = (r_done, w_done)"
    by (simp add: ensure_existing w_done_def)
  show ?thesis
    by (simp add: handleMessage_def e begin_fields_def ex_resume_def ex_begin_def body_of_def
        sanitizeMessages_def sanitizeMessage_def ex_null_message_def)
qed

lemma getDeltas_w_done:
  "getDeltas 5000 ''r1'' kv_done
     = [\<lparr>d_seq = 0, d_text = ''hel'', d_images = []\<rparr>,
        \<lparr>d_seq = 1, d_text = ''lo'', d_images = []\<rparr>]"
  unfolding getDeltas_def kv_list_rows [OF glob_free_r1]
  by (simp add: delta_rows_def kv_get_def kv_done_def delta_prefix_def as_delta_def
      List.map_filter_simps)

lemma null_cursor_is_zero:
  "handleMessage ''u1'' 9 (ex_resume JNull) w_done
     = (w_done, Inr [Send 9 (DeltaF 1 ''lo'' []), Send 9 DoneF])"
proof -
  have e: "ensure ''u1'' w_done = (r_done, w_done)"
    by (simp add: ensure_existing w_done_def)
  show ?thesis
    by (simp add: handleMessage_def e begin_fields_def ex_resume_def ex_begin_def body_of_def
        ex_messages_def replay_def cursor_of_def terminal_frames_def sanitizeMessages_def
        sanitizeMessage_def sanitizeContent_def trim_def is_ws_def)
       (simp add: w_done_def r_done_def getDeltas_w_done)
qed

lemma star_rid_reads_other_rows:
  "getDeltas 5000 ''*'' kv_done
     = [\<lparr>d_seq = 0, d_text = ''hel'', d_images = []\<rparr>,
        \<lparr>d_seq = 1, d_text = ''lo'', d_images = []\<rparr>]"
  by (simp add: getDeltas_def kv_list_def glob_def kv_get_def kv_done_def delta_prefix_def
      as_delta_def List.map_filter_simps)

lemma longer_rid_rows_are_listed:
  "getDeltas 5000 ''r1''
     [(delta_key ''r1:x'' 0, Dlt \<lparr>d_seq = 0, d_text = ''other'', d_images = []\<rparr>, 1201000)]
     = [\<lparr>d_seq = 0, d_text = ''other'', d_images = []\<rparr>]
   \<and> persisted_deltas 5000 ''r1''
     [(delta_key ''r1:x'' 0, Dlt \<lparr>d_seq = 0, d_text = ''other'', d_images = []\<rparr>, 1201000)]
     = []"
proof -
  have k: "delta_key ''r1:x'' 0 = ''delta:r1:x:0000000000''" by (simp add: key_defs)
  show ?thesis
    unfolding getDeltas_def kv_list_rows [OF glob_free_r1] k
    by (simp add: delta_rows_def kv_get_def delta_prefix_def as_delta_def
        List.map_filter_simps persisted_deltas_def own_delta_def delta_key_r1_0)
qed

section \<open>Read boundaries of the upstream stream\<close>

lemma splitLF_nonempty: "splitLF s \<noteq> []"
  by (induction s) (auto split: list.splits)

lemma splitLF_no_LF: "LF \<notin> set s \<Longrightarrow> splitLF s = [s]"
  by (induction s) auto

lemma last_splitLF_no_LF: "LF \<notin> set (last (splitLF s))"
  by (induction s) (auto simp: splitLF_nonempty split: list.splits)

lemma splitLF_append:
  "splitLF (a @ b) = butlast (splitLF a) @ splitLF (last (splitLF a) @ b)"
proof (induction a)
  case Nil then show ?case by simp
next
  case (Cons c a)
  show ?case
  proof (cases "c = LF")
    case True
    with Cons show ?thesis by (simp add: splitLF_nonempty)
  next
    case False
    obtain l ls where s: "splitLF a = l # ls" using splitLF_nonempty [of a] by (cases "splitLF a") auto
    show ?thesis
    proof (cases ls)
      case Nil
      with s False Cons show ?thesis by (simp split: list.splits)
    next
      case (Cons m ms)
      with s False Cons.IH show ?thesis by (simp split: list.splits)
    qed
  qed
qed

lemma butlast_splitLF_append:
  "butlast (splitLF (a @ b)) = butlast (splitLF a) @ butlast (splitLF (last (splitLF a) @ b))"
  by (subst splitLF_append) (simp add: butlast_append splitLF_nonempty)

lemma last_splitLF_append:
  "last (splitLF (a @ b)) = last (splitLF (last (splitLF a) @ b))"
  by (subst splitLF_append) (simp add: splitLF_nonempty)

lemma or_lines_append:
  "or_lines decode ex fl (xs @ ys) =
     (case or_lines decode ex fl xs of
        (fl1, c1, fin1) \<Rightarrow>
          if fin1 then (fl1, c1, True)
          else (case or_lines decode ex fl1 ys of (fl2, c2, fin2) \<Rightarrow> (fl2, c1 @ c2, fin2)))"
  by (induction decode ex fl xs rule: or_lines.induct)
     (auto simp: Let_def split: prod.splits option.splits)

lemma or_reads_whole:
  "LF \<notin> set buf \<Longrightarrow>
   or_reads decode ex buf fl chunks
     = fst (snd (or_lines decode ex fl (butlast (splitLF (buf @ concat chunks)))))"
proof (induction chunks arbitrary: buf fl)
  case Nil
  then show ?case by (simp add: splitLF_no_LF)
next
  case (Cons c rest)
  have ih: "or_reads decode ex (last (splitLF (buf @ c))) fl1 rest
     = fst (snd (or_lines decode ex fl1
         (butlast (splitLF (last (splitLF (buf @ c)) @ concat rest)))))" for fl1
    by (rule Cons.IH) (rule last_splitLF_no_LF)
  have b: "butlast (splitLF (buf @ concat (c # rest)))
     = butlast (splitLF (buf @ c))
       @ butlast (splitLF (last (splitLF (buf @ c)) @ concat rest))"
    using butlast_splitLF_append [of "buf @ c" "concat rest"] by simp
  show ?case
    unfolding b or_lines_append
    by (simp add: ih Let_def split: prod.splits)
qed

text \<open>
  The sibling path. The OpenRouter adapter forwards the same calls however the body is
  cut into reads: they are the calls of the complete lines of the whole body, up to
  \<open>[DONE]\<close>.
\<close>

theorem openrouter_reads_do_not_matter:
  assumes "concat chunks = concat chunks'"
  shows "streamOpenRouter decode ex chunks = streamOpenRouter decode ex chunks'"
  using assms by (simp add: streamOpenRouter_def or_reads_whole)

theorem openrouter_reads_do_not_matter_witness:
  "concat [''data: {h'', ''i}'' @ [LF] @ ''da'', ''ta: {hi}'' @ [LF]]
     = concat [''data: {hi}'' @ [LF] @ ''data: {hi}'' @ [LF]]
   \<and> streamOpenRouter ex_or_decode False [''data: {h'', ''i}'' @ [LF] @ ''da'', ''ta: {hi}'' @ [LF]]
     = [(''hi'', []), (''hi'', [])]"
proof -
  have c: "concat [''data: {h'', ''i}'' @ [LF] @ ''da'', ''ta: {hi}'' @ [LF]]
     = concat [''data: {hi}'' @ [LF] @ ''data: {hi}'' @ [LF]]" by simp
  have "streamOpenRouter ex_or_decode False [''data: {hi}'' @ [LF] @ ''data: {hi}'' @ [LF]]
     = [(''hi'', []), (''hi'', [])]"
    by (simp add: streamOpenRouter_def LF_def ex_or_decode_def Let_def trim_def is_ws_def
        or_frame_def)
  with openrouter_reads_do_not_matter [OF c, of ex_or_decode False] c show ?thesis by simp
qed

lemmas google_defs = streamGoogle_def after_last_LF_def LF_def ex_g_decode_def Let_def

text \<open>
  C9 at the failing input. The Google adapter walks over every piece of the buffer, the
  unfinished last line included, and keeps that line for the next read. A frame whose
  line feed arrives in the next read is therefore forwarded twice: read in one piece the
  body gives one call of \<open>onDelta\<close>, cut before its line feed it gives two.
\<close>

theorem google_forwards_a_frame_twice:
  "streamGoogle ex_g_decode [''data: {hi}'' @ [LF]] = [(''hi'', [])]
   \<and> streamGoogle ex_g_decode [''data: {hi}'', [LF]] = [(''hi'', []), (''hi'', [])]"
  by (simp add: google_defs)

section \<open>A Run that was evicted from memory\<close>

lemmas op_defs = handleMessage_def addSocket_def removeSocket_def ensure_def meta_def
  fresh_run_def begin_fields_def body_of_def kv_get_def saveSnapshot_def kv_set_def
  sanitizeMessages_def sanitizeMessage_def sanitizeContent_def trim_def is_ws_def
  run_key_def prompt_key_def adapter_of_def object_members_def at_run_def queueDelta_def flush_def stop_def adapter_returns_def
  BATCH_BYTES_def TTL_MS_def tick_def cleanup_def bcast_def abort_def Let_def

lemma w_begun_eq:
  "w_begun = \<lparr>runs = [(''u1'', \<lparr>rid = ''r1'', seq = - 1, phase = Running, error = None,
        sockets = [7], pending = [], pendingImages = [], flushTimer = False,
        controller = Some False, startedAt = 1000, timeoutTimer = True\<rparr>)],
     kvs = [(''prompt:r1'', Prompt ex_messages, 1201000),
            (''run:r1'', Snap \<lparr>s_rid = ''r1'', s_seq = - 1, s_phase = Running,
                s_error = None, s_startedAt = 1000\<rparr>, 1201000)],
     clock = 1000\<rparr>"
  by (simp add: w_begun_def w_empty_def op_defs ex_begin_def ex_messages_def)

lemma w_streamed_eq:
  "w_streamed = \<lparr>runs = [(''u1'', \<lparr>rid = ''r1'', seq = - 1, phase = Running, error = None,
        sockets = [7], pending = ''hello'', pendingImages = [], flushTimer = True,
        controller = Some False, startedAt = 1000, timeoutTimer = True\<rparr>)],
     kvs = [(''prompt:r1'', Prompt ex_messages, 1201000),
            (''run:r1'', Snap \<lparr>s_rid = ''r1'', s_seq = - 1, s_phase = Running,
                s_error = None, s_startedAt = 1000\<rparr>, 1201000)],
     clock = 1100\<rparr>"
  by (simp add: w_streamed_def w_begun_eq op_defs)

lemma w_finished_eq:
  "w_finished = \<lparr>runs = [(''u1'', \<lparr>rid = ''r1'', seq = 0, phase = Done, error = None,
        sockets = [7], pending = [], pendingImages = [], flushTimer = False,
        controller = Some True, startedAt = 1000, timeoutTimer = False\<rparr>)],
     kvs = [(''prompt:r1'', Prompt ex_messages, 1201000),
            (''delta:r1:0000000000'', Dlt \<lparr>d_seq = 0, d_text = ''hello'', d_images = []\<rparr>,
             1201200),
            (''run:r1'', Snap \<lparr>s_rid = ''r1'', s_seq = 0, s_phase = Done,
                s_error = None, s_startedAt = 1000\<rparr>, 1201200)],
     clock = 1200\<rparr>"
  by (simp add: w_finished_def w_streamed_eq op_defs delta_key_r1_0)

lemma w_evicted_eq:
  "w_evicted = \<lparr>runs = [],
     kvs = [(''prompt:r1'', Prompt ex_messages, 1201000),
            (''delta:r1:0000000000'', Dlt \<lparr>d_seq = 0, d_text = ''hello'', d_images = []\<rparr>,
             1201200),
            (''run:r1'', Snap \<lparr>s_rid = ''r1'', s_seq = 0, s_phase = Done,
                s_error = None, s_startedAt = 1000\<rparr>, 1201200)],
     clock = 61200\<rparr>"
  by (simp add: w_evicted_def w_finished_eq op_defs)

text \<open>
  C2 at the failing input. The Run \<open>r1\<close> of uid \<open>u1\<close> ends in phase \<open>done\<close> with one
  delta; before the sweep a poll of \<open>u1\<close> reports it. After the sweep the Snapshot and
  the delta are still in the store, under the rid, but \<open>meta\<close> looks under the uid: the
  poll of \<open>u1\<close> returns the idle sentinel.
\<close>

theorem poll_after_eviction_reports_idle:
  "fst (handlePoll ''u1'' (removeSocket ''u1'' 7 w_finished))
     = \<lparr>p_rid = Some ''r1'', p_seq = 0, p_phase = Done, p_done = True, p_error = None,
        p_text = ''hello'', p_images = []\<rparr>
   \<and> kv_get (kvs w_evicted) (clock w_evicted) (run_key ''r1'')
     = Some (Snap \<lparr>s_rid = ''r1'', s_seq = 0, s_phase = Done, s_error = None,
                    s_startedAt = 1000\<rparr>)
   \<and> getDeltas (clock w_evicted) ''r1'' (kvs w_evicted)
     = [\<lparr>d_seq = 0, d_text = ''hello'', d_images = []\<rparr>]
   \<and> handlePoll ''u1'' w_evicted = (idle_poll, w_evicted)"
proof -
  have a: "fst (handlePoll ''u1'' (removeSocket ''u1'' 7 w_finished))
     = \<lparr>p_rid = Some ''r1'', p_seq = 0, p_phase = Done, p_done = True, p_error = None,
        p_text = ''hello'', p_images = []\<rparr>"
    by (simp add: w_finished_eq handlePoll_def getDeltas_def kv_list_literal glob_free_def
        op_defs read_defs)
  have b: "kv_get (kvs w_evicted) (clock w_evicted) (run_key ''r1'')
     = Some (Snap \<lparr>s_rid = ''r1'', s_seq = 0, s_phase = Done, s_error = None,
                    s_startedAt = 1000\<rparr>)"
    by (simp add: w_evicted_eq kv_get_def run_key_def)
  have c: "getDeltas (clock w_evicted) ''r1'' (kvs w_evicted)
     = [\<lparr>d_seq = 0, d_text = ''hello'', d_images = []\<rparr>]"
    by (simp add: w_evicted_eq getDeltas_def kv_list_literal glob_free_def kv_get_def
        read_defs)
  have d: "handlePoll ''u1'' w_evicted = (idle_poll, w_evicted)"
    by (simp add: w_evicted_eq handlePoll_def meta_def kv_get_def run_key_def idle_poll_def)
  from a b c d show ?thesis by blast
qed

lemma w_reconnected_eq:
  "w_reconnected = \<lparr>runs = [(''u1'', \<lparr>rid = ''u1'', seq = - 1, phase = Idle, error = None,
        sockets = [8], pending = [], pendingImages = [], flushTimer = False,
        controller = None, startedAt = 0, timeoutTimer = False\<rparr>)],
     kvs = [(''prompt:r1'', Prompt ex_messages, 1201000),
            (''delta:r1:0000000000'', Dlt \<lparr>d_seq = 0, d_text = ''hello'', d_images = []\<rparr>,
             1201200),
            (''run:r1'', Snap \<lparr>s_rid = ''r1'', s_seq = 0, s_phase = Done,
                s_error = None, s_startedAt = 1000\<rparr>, 1201200)],
     clock = 61200\<rparr>"
  by (simp add: w_reconnected_def w_evicted_eq addSocket_def ensure_def meta_def kv_get_def
      run_key_def fresh_run_def)

lemma rebegin_eq:
  "handleMessage ''u1'' 8 (ex_begin ''r1'') w_reconnected =
   (\<lparr>runs = [(''u1'', \<lparr>rid = ''r1'', seq = - 1, phase = Running, error = None,
        sockets = [8], pending = [], pendingImages = [], flushTimer = False,
        controller = Some False, startedAt = 61200, timeoutTimer = True\<rparr>)],
     kvs = [(''delta:r1:0000000000'', Dlt \<lparr>d_seq = 0, d_text = ''hello'', d_images = []\<rparr>,
             1201200),
            (''prompt:r1'', Prompt ex_messages, 1261200),
            (''run:r1'', Snap \<lparr>s_rid = ''r1'', s_seq = - 1, s_phase = Running,
                s_error = None, s_startedAt = 61200\<rparr>, 1261200)],
     clock = 61200\<rparr>, Inr [Spawn OpenRouter ''K'' ex_body])"
  by (simp add: w_reconnected_eq op_defs ex_begin_def ex_messages_def ex_body_def)

text \<open>
  C3 at the failing input. After the eviction the delta 0 of \<open>r1\<close> is persisted. The
  reconnecting socket finds a fresh idle Run (no Snapshot is read), so the same \<open>begin\<close>
  is not a resume: the adapter is spawned again with \<open>seq = -1\<close>, and the next delta of
  \<open>r1\<close> is numbered 0 again and replaces the persisted one.
\<close>

theorem seq_restarts_after_eviction:
  "kv_get (kvs w_evicted) (clock w_evicted) (delta_key ''r1'' 0)
     = Some (Dlt \<lparr>d_seq = 0, d_text = ''hello'', d_images = []\<rparr>)
   \<and> map_of (runs w_reconnected) ''u1'' = Some ((fresh_run ''u1'')\<lparr>sockets := [8]\<rparr>)
   \<and> snd (handleMessage ''u1'' 8 (ex_begin ''r1'') w_reconnected)
     = Inr [Spawn OpenRouter ''K'' ex_body]
   \<and> map_option seq (map_of (runs w_rebegun) ''u1'') = Some (- 1)
   \<and> kv_get (kvs w_restarted) (clock w_restarted) (delta_key ''r1'' 0)
     = Some (Dlt \<lparr>d_seq = 0, d_text = ''again'', d_images = []\<rparr>)"
proof -
  note k = delta_key_r1_0
  have a: "kv_get (kvs w_evicted) (clock w_evicted) (delta_key ''r1'' 0)
     = Some (Dlt \<lparr>d_seq = 0, d_text = ''hello'', d_images = []\<rparr>)"
    by (simp add: k w_evicted_eq kv_get_def)
  have b: "map_of (runs w_reconnected) ''u1'' = Some ((fresh_run ''u1'')\<lparr>sockets := [8]\<rparr>)"
    by (simp add: w_reconnected_eq fresh_run_def)
  have c: "snd (handleMessage ''u1'' 8 (ex_begin ''r1'') w_reconnected)
     = Inr [Spawn OpenRouter ''K'' ex_body]"
    by (simp add: rebegin_eq)
  have s: "map_option seq (map_of (runs w_rebegun) ''u1'') = Some (- 1)"
    by (simp add: w_rebegun_def rebegin_eq)
  have d: "kv_get (kvs w_restarted) (clock w_restarted) (delta_key ''r1'' 0)
     = Some (Dlt \<lparr>d_seq = 0, d_text = ''again'', d_images = []\<rparr>)"
    unfolding w_restarted_def w_rebegun_def rebegin_eq
    by (simp add: op_defs k)
  from a b c s d show ?thesis by blast
qed

section \<open>Keys of the delta log\<close>







lemma run_key_no_delta: "\<not> prefix (delta_prefix r) (run_key x)"
  by (simp add: delta_prefix_def run_key_def)


lemma delta_rows_set_other:
  "\<not> prefix (delta_prefix r) k \<Longrightarrow> delta_rows now' r (kv_set k v now st) = delta_rows now' r st"
proof -
  assume n: "\<not> prefix (delta_prefix r) k"
  have "filter (\<lambda>(k', v, exp). prefix (delta_prefix r) k' \<and> exp > now')
          (filter (\<lambda>(k', v, exp). k' \<noteq> k) st)
        = filter (\<lambda>(k', v, exp). prefix (delta_prefix r) k' \<and> exp > now') st"
    using n by (induction st) auto
  with n show ?thesis by (simp add: delta_rows_def kv_set_def)
qed




section \<open>The delta log of a streaming Run\<close>







lemma delta_rows_saveSnapshot [simp]:
  "delta_rows now x (saveSnapshot now' r st) = delta_rows now x st"
  by (simp add: saveSnapshot_def delta_rows_set_other run_key_no_delta)

lemma log_inv_saveSnapshot [simp]:
  "log_inv t0 acc ds now (r, saveSnapshot now' r' st) = log_inv t0 acc ds now (r, st)"
  by (simp add: log_inv_def)


lemma flush_cases:
  "flush now force (r, st) =
     (if pending r \<noteq> [] \<or> pendingImages r \<noteq> []
      then (r\<lparr>flushTimer := False, seq := seq r + 1, pending := [], pendingImages := []\<rparr>,
            (if force
             then saveSnapshot now
                    (r\<lparr>flushTimer := False, seq := seq r + 1, pending := [],
                       pendingImages := []\<rparr>)
                    (kv_set (delta_key (rid r) (seq r + 1))
                       (Dlt \<lparr>d_seq = seq r + 1, d_text = pending r,
                             d_images = pendingImages r\<rparr>) now st)
             else kv_set (delta_key (rid r) (seq r + 1))
                    (Dlt \<lparr>d_seq = seq r + 1, d_text = pending r,
                          d_images = pendingImages r\<rparr>) now st),
            bcast r (DeltaF (seq r + 1) (pending r) (pendingImages r)))
      else (r\<lparr>flushTimer := False\<rparr>,
            (if force then saveSnapshot now (r\<lparr>flushTimer := False\<rparr>) st else st), []))"
  by (simp add: flush_def Let_def bcast_def)



















section \<open>What restoring and flushing do guarantee\<close>

text \<open>
  When no Run is in memory for a uid and a Snapshot is visible under \<open>run:<uid>\<close>,
  a poll reports that Snapshot's seq, phase and error, and the persisted deltas under
  \<open>delta:<uid>:\<close>: the persisted state is observed when the rid of the Run was its uid.
\<close>

theorem poll_reads_snapshot_under_uid:
  assumes "map_of (runs w) uid = None"
    and "kv_get (kvs w) (clock w) (run_key uid) = Some (Snap s)"
  shows "fst (handlePoll uid w) =
     \<lparr>p_rid = Some uid, p_seq = s_seq s, p_phase = s_phase s,
      p_done = terminal (s_phase s),
      p_error = (if s_phase s = Error \<or> s_phase s = Evicted
                 then Some (error_or_default (s_error s)) else None),
      p_text = concat (map d_text (getDeltas (clock w) uid (kvs w))),
      p_images = concat (map d_images (getDeltas (clock w) uid (kvs w)))\<rparr>"
  using assms by (simp add: handlePoll_def meta_def restored_def Let_def terminal_def)

theorem poll_reads_snapshot_under_uid_witness:
  "map_of (runs w_same_id) ''u1'' = None
   \<and> kv_get (kvs w_same_id) (clock w_same_id) (run_key ''u1'')
       = Some (Snap \<lparr>s_rid = ''u1'', s_seq = 0, s_phase = Done, s_error = None,
                      s_startedAt = 1000\<rparr>)
   \<and> fst (handlePoll ''u1'' w_same_id) =
     \<lparr>p_rid = Some ''u1'', p_seq = 0, p_phase = Done, p_done = True, p_error = None,
      p_text = ''hello'', p_images = []\<rparr>"
proof -
  have h1: "map_of (runs w_same_id) ''u1'' = None" by (simp add: w_same_id_def)
  have h2: "kv_get (kvs w_same_id) (clock w_same_id) (run_key ''u1'')
       = Some (Snap \<lparr>s_rid = ''u1'', s_seq = 0, s_phase = Done, s_error = None,
                      s_startedAt = 1000\<rparr>)"
    by (simp add: w_same_id_def kv_same_id_def kv_get_def run_key_def)
  have g: "getDeltas (clock w_same_id) ''u1'' (kvs w_same_id)
       = [\<lparr>d_seq = 0, d_text = ''hello'', d_images = []\<rparr>]"
    by (simp add: w_same_id_def kv_same_id_def getDeltas_def kv_list_literal glob_free_def
        kv_get_def read_defs)
  from poll_reads_snapshot_under_uid [OF h1 h2] h1 h2 show ?thesis
    by (simp add: g terminal_def)
qed

text \<open>
  A flush with something pending assigns \<open>seq + 1\<close>, persists the pending text and
  images as the delta of that number under its key, and broadcasts it.
\<close>

theorem flush_assigns_next_seq:
  assumes "pending r \<noteq> [] \<or> pendingImages r \<noteq> []"
  shows "seq (fst (flush now force (r, st))) = seq r + 1
     \<and> kv_get (fst (snd (flush now force (r, st)))) now (delta_key (rid r) (seq r + 1))
         = Some (Dlt \<lparr>d_seq = seq r + 1, d_text = pending r, d_images = pendingImages r\<rparr>)
     \<and> snd (snd (flush now force (r, st)))
         = bcast r (DeltaF (seq r + 1) (pending r) (pendingImages r))"
  using assms
  by (auto simp: flush_cases saveSnapshot_def kv_get_set TTL_pos run_key_not_delta_key [symmetric])

theorem flush_assigns_next_seq_witness:
  "(pending r_running \<noteq> [] \<or> pendingImages r_running \<noteq> [])
   \<and> seq r_running = 0
   \<and> seq (fst (flush 2000 False (r_running, kv_running))) = 1
   \<and> kv_get (fst (snd (flush 2000 False (r_running, kv_running)))) 2000 (delta_key ''r1'' 1)
       = Some (Dlt \<lparr>d_seq = 1, d_text = ''lo'', d_images = []\<rparr>)"
proof -
  have h: "pending r_running \<noteq> [] \<or> pendingImages r_running \<noteq> []"
    by (simp add: r_running_def)
  from flush_assigns_next_seq [OF h, of 2000 False kv_running] h show ?thesis
    by (simp add: r_running_def)
qed

end
